theory Spec2Isabelle
  imports Complex_Main "HOL-Library.AList" "HOL-Library.Sublist"
begin

chapter \<open>The model\<close>

section \<open>Common conventions\<close>

text \<open>
  The development embeds the authentication and session plane of the HTTP transport:
  the token manager (\<open>auth/tokenManager.ts\<close>), the rate limiter
  (\<open>utils/rateLimiter.ts\<close>), the MCP session manager
  (\<open>transports/sessionManager.ts\<close>), the session-pool registry
  (\<open>db/connection.ts\<close>) and the \<open>/auth\<close> and \<open>/mcp\<close> handlers of
  \<open>transports/http.ts\<close>.

  \<^item> A JavaScript \<open>Map\<close> is an association list in insertion order.  \<open>Map.get\<close> is
    \<^const>\<open>map_of\<close>, \<open>Map.set\<close> is \<^const>\<open>AList.update\<close> (it overwrites in place or
    appends), \<open>Map.delete\<close> is \<^const>\<open>AList.delete\<close>, \<open>Map.size\<close> is the length of
    the list (the keys stay distinct under these operations).
  \<^item> Times are milliseconds since the epoch, durations are whole seconds; both are
    integers.  The clock reading (\<open>new Date()\<close>, \<open>Date.now()\<close>) and the random
    values (\<open>crypto.randomBytes\<close>, \<open>randomUUID\<close>) a function uses are parameters.
  \<^item> A \<open>throw\<close> is the \<open>Inl\<close> branch of a sum.
  \<^item> What an external collaborator does (a pool, a transport, a protocol server, the
    registered cleanup callback) is a parameter or a field of its model; the calls made
    to it are recorded in a log kept in the state.
\<close>

datatype error = Error string

text \<open>\<open>String.prototype.includes\<close>.\<close>

fun str_includes :: "string \<Rightarrow> string \<Rightarrow> bool" where
  "str_includes [] sub = (sub = [])"
| "str_includes (c # cs) sub = (prefix sub (c # cs) \<or> str_includes cs sub)"

text \<open>Decimal rendering of a number inside a template literal.\<close>

definition digit_char :: "nat \<Rightarrow> char" where
  "digit_char d = char_of (48 + d)"

fun string_of_nat :: "nat \<Rightarrow> string" where
  "string_of_nat n =
     (if n < 10 then [digit_char n] else string_of_nat (n div 10) @ [digit_char (n mod 10)])"

definition string_of_int :: "int \<Rightarrow> string" where
  "string_of_int i = (if i < 0 then CHR ''-'' # string_of_nat (nat (- i)) else string_of_nat (nat i))"

record DB2iConfig =
  hostname :: string
  port :: int
  username :: string
  password :: string
  database :: string
  schema :: string
  jdbcOptions :: "(string \<times> string) list"


section \<open>Token manager\<close>

record TokenSession =
  token :: string
  config :: DB2iConfig
  createdAt :: int
  expiresAt :: int
  lastUsedAt :: int
  mcpSessionId :: "string option"

record TokenValidationResult =
  valid :: bool
  session :: "TokenSession option"
  error :: "string option"

text \<open>The two fields of \<open>getHttpConfig()\<close> the token manager reads.\<close>

record HttpConfig =
  tokenExpiry :: int
  maxSessions :: int

text \<open>
  The state of the \<open>TokenManager\<close> singleton.  \<open>cleanupCallback\<close> tells whether a
  callback is registered (the field is \<open>null\<close> otherwise); \<open>cleanupCalls\<close> lists, oldest
  first, the tokens the callback has been invoked with.
\<close>

record TokenManager =
  sessions :: "(string \<times> TokenSession) list"
  cleanupCallback :: bool
  cleanupCalls :: "string list"

definition newTokenManager :: TokenManager where
  "newTokenManager = \<lparr>sessions = [], cleanupCallback = False, cleanupCalls = []\<rparr>"

definition setCleanupCallback :: "TokenManager \<Rightarrow> TokenManager" where
  "setCleanupCallback tm = tm\<lparr>cleanupCallback := True\<rparr>"

text \<open>
  \<open>notifyCleanup\<close>: the callback is invoked when one is registered; what it throws is
  caught and logged.
\<close>

definition notifyCleanup :: "string \<Rightarrow> TokenManager \<Rightarrow> TokenManager" where
  "notifyCleanup tok tm =
     (if cleanupCallback tm then tm\<lparr>cleanupCalls := cleanupCalls tm @ [tok]\<rparr> else tm)"

record CreatedSession =
  cs_token :: string
  cs_expiresAt :: int
  cs_expiresIn :: int

text \<open>
  \<open>createSession(config, durationSeconds?)\<close>.  \<open>tok\<close> is the value of
  \<open>generateTokenString()\<close> and \<open>now\<close> the clock reading.
\<close>

definition createSession ::
  "HttpConfig \<Rightarrow> DB2iConfig \<Rightarrow> int option \<Rightarrow> string \<Rightarrow> int \<Rightarrow> TokenManager
     \<Rightarrow> error + (CreatedSession \<times> TokenManager)" where
  "createSession httpConfig cfg durationSeconds tok now tm =
     (if int (length (sessions tm)) \<ge> maxSessions httpConfig then
        Inl (Error (''Maximum concurrent sessions ('' @ string_of_int (maxSessions httpConfig)
                      @ '') reached. Please try again later.''))
      else
        let expiresIn = (case durationSeconds of Some d \<Rightarrow> d | None \<Rightarrow> tokenExpiry httpConfig);
            expAt = now + expiresIn * 1000;
            s = \<lparr>token = tok, config = cfg, createdAt = now, expiresAt = expAt,
                 lastUsedAt = now, mcpSessionId = None\<rparr>
        in Inr (\<lparr>cs_token = tok, cs_expiresAt = expAt, cs_expiresIn = expiresIn\<rparr>,
                tm\<lparr>sessions := AList.update tok s (sessions tm)\<rparr>))"

text \<open>\<open>validateToken(token)\<close>; a string argument is the only one the type admits.\<close>

definition validateToken ::
  "string \<Rightarrow> int \<Rightarrow> TokenManager \<Rightarrow> TokenValidationResult \<times> TokenManager" where
  "validateToken tok now tm =
     (if tok = [] then
        (\<lparr>valid = False, session = None, error = Some ''Invalid token format''\<rparr>, tm)
      else case map_of (sessions tm) tok of
        None \<Rightarrow> (\<lparr>valid = False, session = None, error = Some ''Token not found or expired''\<rparr>, tm)
      | Some s \<Rightarrow>
          if now > expiresAt s then
            (\<lparr>valid = False, session = None, error = Some ''Token expired''\<rparr>,
             tm\<lparr>sessions := AList.delete tok (sessions tm)\<rparr>)
          else
            let s' = s\<lparr>lastUsedAt := now\<rparr>
            in (\<lparr>valid = True, session = Some s', error = None\<rparr>,
                tm\<lparr>sessions := AList.update tok s' (sessions tm)\<rparr>))"

definition setMcpSessionId :: "string \<Rightarrow> string \<Rightarrow> TokenManager \<Rightarrow> TokenManager" where
  "setMcpSessionId tok sid tm =
     (case map_of (sessions tm) tok of
        None \<Rightarrow> tm
      | Some s \<Rightarrow> tm\<lparr>sessions := AList.update tok (s\<lparr>mcpSessionId := Some sid\<rparr>) (sessions tm)\<rparr>)"

text \<open>\<open>revokeToken(token)\<close>.\<close>

definition revokeToken :: "string \<Rightarrow> TokenManager \<Rightarrow> bool \<times> TokenManager" where
  "revokeToken tok tm =
     (case map_of (sessions tm) tok of
        None \<Rightarrow> (False, tm)
      | Some s \<Rightarrow> (True, notifyCleanup tok (tm\<lparr>sessions := AList.delete tok (sessions tm)\<rparr>)))"

text \<open>
  \<open>cleanupExpiredSessions()\<close>, the body of the one-minute timer: the expired tokens are
  collected first, then each is deleted and notified.
\<close>

definition expiredTokens :: "int \<Rightarrow> TokenManager \<Rightarrow> string list" where
  "expiredTokens now tm = map fst (filter (\<lambda>(t, s). now > expiresAt s) (sessions tm))"

definition expireToken :: "string \<Rightarrow> TokenManager \<Rightarrow> TokenManager" where
  "expireToken tok tm = notifyCleanup tok (tm\<lparr>sessions := AList.delete tok (sessions tm)\<rparr>)"

definition cleanupExpiredSessions :: "int \<Rightarrow> TokenManager \<Rightarrow> TokenManager" where
  "cleanupExpiredSessions now tm = fold expireToken (expiredTokens now tm) tm"

text \<open>\<open>shutdown()\<close>: every remaining token is notified, then the map is cleared.\<close>

definition shutdown :: "TokenManager \<Rightarrow> TokenManager" where
  "shutdown tm = (fold notifyCleanup (map fst (sessions tm)) tm)\<lparr>sessions := []\<rparr>"

definition canCreateSession :: "HttpConfig \<Rightarrow> TokenManager \<Rightarrow> bool" where
  "canCreateSession httpConfig tm = (int (length (sessions tm)) < maxSessions httpConfig)"


text \<open>
  The clause of \<open>validateAuthRequest\<close> (\<open>transports/http.ts\<close>) that checks the
  optional \<open>duration\<close> field of the \<open>/auth\<close> body, and the value it passes on.  The
  field is absent (\<open>undefined\<close>), a number, or a value of another type.
\<close>

datatype json_field = Undefined | JNumber int | JOther

definition validateAuthRequest_duration :: "json_field \<Rightarrow> string + int option" where
  "validateAuthRequest_duration duration =
     (case duration of
        Undefined \<Rightarrow> Inr None
      | JOther \<Rightarrow> Inl ''duration must be a number between 1 and 86400 seconds''
      | JNumber d \<Rightarrow>
          if d < 1 \<or> d > 86400
          then Inl ''duration must be a number between 1 and 86400 seconds''
          else Inr (Some d))"

text \<open>
  The operations on the token store, as one datatype, and a run of them from a fresh
  token manager.  \<open>createSession\<close> and \<open>validateToken\<close> are synchronous.
  \<open>revokeToken\<close> has finished with the map when it awaits the callback.  The sweep
  awaits the callback after each deletion, so other operations can come between two of
  its deletions: \<open>OpSweep\<close> is a sweep that runs undisturbed, \<open>OpExpire\<close> one
  iteration of its loop (delete, then notify) taken alone.  The store is observed between
  any two operations.
\<close>

datatype tm_op =
    OpCreate DB2iConfig "int option" string int
  | OpValidate string int
  | OpRevoke string
  | OpSweep int
  | OpExpire string
  | OpShutdown
  | OpSetMcpSessionId string string
  | OpSetCleanupCallback

fun tm_apply :: "HttpConfig \<Rightarrow> tm_op \<Rightarrow> TokenManager \<Rightarrow> TokenManager" where
  "tm_apply hc (OpCreate cfg d tok now) tm =
     (case createSession hc cfg d tok now tm of Inl e \<Rightarrow> tm | Inr (r, tm') \<Rightarrow> tm')"
| "tm_apply hc (OpValidate tok now) tm = snd (validateToken tok now tm)"
| "tm_apply hc (OpRevoke tok) tm = snd (revokeToken tok tm)"
| "tm_apply hc (OpSweep now) tm = cleanupExpiredSessions now tm"
| "tm_apply hc (OpExpire tok) tm = expireToken tok tm"
| "tm_apply hc OpShutdown tm = shutdown tm"
| "tm_apply hc (OpSetMcpSessionId tok sid) tm = setMcpSessionId tok sid tm"
| "tm_apply hc OpSetCleanupCallback tm = setCleanupCallback tm"

definition tm_run :: "HttpConfig \<Rightarrow> tm_op list \<Rightarrow> TokenManager" where
  "tm_run hc ops = fold (tm_apply hc) ops newTokenManager"

text \<open>Example values.\<close>

definition exampleConfig :: DB2iConfig where
  "exampleConfig = \<lparr>hostname = ''test.ibmi.com'', port = 446, username = ''TESTUSER'',
     password = ''testpass'', database = ''*LOCAL'', schema = ''TESTLIB'', jdbcOptions = []\<rparr>"

definition exampleHttpConfig :: HttpConfig where
  "exampleHttpConfig = \<lparr>tokenExpiry = 3600, maxSessions = 100\<rparr>"


section \<open>Rate limiter\<close>

record RateLimitConfig =
  windowMs :: int
  maxRequests :: int
  enabled :: bool

record WindowData =
  count :: int
  windowStart :: int

record RateLimitResult =
  allowed :: bool
  remaining :: int
  resetTime :: int
  retryAfterSeconds :: int
  limit :: int
  resultWindowMs :: int

text \<open>\<open>Math.ceil(a / b)\<close> on integers, for a positive \<open>b\<close>.\<close>

definition Math_ceil_div :: "int \<Rightarrow> int \<Rightarrow> int" where
  "Math_ceil_div a b = - ((- a) div b)"

text \<open>
  \<open>RateLimiter.checkLimit(key)\<close> on the map \<open>windows\<close>.  The window object stored in
  the map is the one whose count is incremented, so the map holds the incremented
  window.
\<close>

definition checkLimit ::
  "RateLimitConfig \<Rightarrow> string \<Rightarrow> int \<Rightarrow> (string \<times> WindowData) list
     \<Rightarrow> RateLimitResult \<times> (string \<times> WindowData) list" where
  "checkLimit cfg key now windows =
     (if \<not> enabled cfg then
        (\<lparr>allowed = True, remaining = maxRequests cfg, resetTime = now + windowMs cfg,
          retryAfterSeconds = 0, limit = maxRequests cfg, resultWindowMs = windowMs cfg\<rparr>,
         windows)
      else
        let fresh = \<lparr>count = 0, windowStart = now\<rparr>;
            (window, windows1) =
              (case map_of windows key of
                 None \<Rightarrow> (fresh, AList.update key fresh windows)
               | Some w \<Rightarrow>
                   if now \<ge> windowStart w + windowMs cfg
                   then (fresh, AList.update key fresh windows)
                   else (w, windows));
            resetT = windowStart window + windowMs cfg;
            retry = Math_ceil_div (resetT - now) 1000
        in if count window \<ge> maxRequests cfg then
             (\<lparr>allowed = False, remaining = 0, resetTime = resetT,
               retryAfterSeconds = retry, limit = maxRequests cfg,
               resultWindowMs = windowMs cfg\<rparr>,
              windows1)
           else
             let window' = window\<lparr>count := count window + 1\<rparr>
             in (\<lparr>allowed = True, remaining = maxRequests cfg - count window',
                  resetTime = resetT, retryAfterSeconds = retry, limit = maxRequests cfg,
                  resultWindowMs = windowMs cfg\<rparr>,
                 AList.update key window' windows1))"

text \<open>
  The window in force for a key, in the words of the specification: when the stored
  window is absent or \<open>now \<ge> windowStart + windowMs\<close>, a new window that starts at
  \<open>now\<close> with count 0; the stored window otherwise.
\<close>

definition windowInForce_spec ::
  "RateLimitConfig \<Rightarrow> int \<Rightarrow> WindowData option \<Rightarrow> WindowData" where
  "windowInForce_spec cfg now stored =
     (case stored of
        None \<Rightarrow> \<lparr>count = 0, windowStart = now\<rparr>
      | Some w \<Rightarrow>
          if now \<ge> windowStart w + windowMs cfg then \<lparr>count = 0, windowStart = now\<rparr> else w)"

definition DEFAULT_RATE_LIMIT :: RateLimitConfig where
  "DEFAULT_RATE_LIMIT = \<lparr>windowMs = 15 * 60 * 1000, maxRequests = 100, enabled = True\<rparr>"


section \<open>MCP session manager\<close>

text \<open>
  The protocol server and the transport of a session are collaborators.  Of a server
  the model keeps what \<open>createServer(config, sessionKey)\<close> was given; of a transport
  whether its \<open>close()\<close> rejects.
\<close>

record McpServer =
  serverConfig :: DB2iConfig
  serverSessionKey :: string

record Transport =
  transportCloseFails :: bool

record McpSession =
  sessionId :: string
  server :: McpServer
  transport :: Transport
  authToken :: string
  sessionCreatedAt :: int
  lastAccessedAt :: int
  activeRequests :: int
  isClosing :: bool

text \<open>The calls \<open>closeSession\<close> makes to the collaborators of a session, by session id.\<close>

datatype sm_event = TransportClose string | ServerClose string

record SessionManager =
  mcpSessions :: "(string \<times> McpSession) list"
  closeLog :: "sm_event list"

definition newSessionManager :: SessionManager where
  "newSessionManager = \<lparr>mcpSessions = [], closeLog = []\<rparr>"

definition staleTimeoutMs :: int where
  "staleTimeoutMs = 30 * 60 * 1000"

text \<open>
  \<open>SessionManager.createSession(server, authToken)\<close>.  \<open>sid\<close> is the value of
  \<open>randomUUID()\<close>, \<open>tr\<close> the transport constructed for it, and \<open>connectError\<close> what
  \<open>server.connect(transport)\<close> throws, if it does.
\<close>

definition createSession_mcp ::
  "McpServer \<Rightarrow> string \<Rightarrow> string \<Rightarrow> Transport \<Rightarrow> int \<Rightarrow> error option \<Rightarrow> SessionManager
     \<Rightarrow> error + ((string \<times> Transport) \<times> SessionManager)" where
  "createSession_mcp srv tok sid tr now connectError sm =
     (case connectError of
        Some e \<Rightarrow> Inl e
      | None \<Rightarrow>
          let s = \<lparr>sessionId = sid, server = srv, transport = tr, authToken = tok,
                   sessionCreatedAt = now, lastAccessedAt = now, activeRequests = 0,
                   isClosing = False\<rparr>
          in Inr ((sid, tr), sm\<lparr>mcpSessions := AList.update sid s (mcpSessions sm)\<rparr>))"

definition getSession_mcp ::
  "string \<Rightarrow> int \<Rightarrow> SessionManager \<Rightarrow> McpSession option \<times> SessionManager" where
  "getSession_mcp sid now sm =
     (case map_of (mcpSessions sm) sid of
        None \<Rightarrow> (None, sm)
      | Some s \<Rightarrow>
          if \<not> isClosing s then
            let s' = s\<lparr>lastAccessedAt := now\<rparr>
            in (Some s', sm\<lparr>mcpSessions := AList.update sid s' (mcpSessions sm)\<rparr>)
          else (None, sm))"

definition incrementActiveRequests :: "string \<Rightarrow> int \<Rightarrow> SessionManager \<Rightarrow> SessionManager" where
  "incrementActiveRequests sid now sm =
     (case map_of (mcpSessions sm) sid of
        None \<Rightarrow> sm
      | Some s \<Rightarrow>
          sm\<lparr>mcpSessions :=
               AList.update sid (s\<lparr>activeRequests := activeRequests s + 1, lastAccessedAt := now\<rparr>)
                 (mcpSessions sm)\<rparr>)"

definition decrementActiveRequests :: "string \<Rightarrow> int \<Rightarrow> SessionManager \<Rightarrow> SessionManager" where
  "decrementActiveRequests sid now sm =
     (case map_of (mcpSessions sm) sid of
        None \<Rightarrow> sm
      | Some s \<Rightarrow>
          if activeRequests s > 0 then
            sm\<lparr>mcpSessions :=
                 AList.update sid (s\<lparr>activeRequests := activeRequests s - 1, lastAccessedAt := now\<rparr>)
                   (mcpSessions sm)\<rparr>
          else sm)"

text \<open>
  \<open>closeSession(sessionId)\<close>, run without anything else in between.  When
  \<open>transport.close()\<close> rejects, control passes to the \<open>catch\<close> block and
  \<open>server.close()\<close> is not called; what \<open>server.close()\<close> throws is caught as well and
  changes nothing that follows.
\<close>

definition closeSession :: "string \<Rightarrow> SessionManager \<Rightarrow> bool \<times> SessionManager" where
  "closeSession sid sm =
     (case map_of (mcpSessions sm) sid of
        None \<Rightarrow> (False, sm)
      | Some s \<Rightarrow>
          if isClosing s then (False, sm)
          else
            let sm1 = sm\<lparr>mcpSessions := AList.update sid (s\<lparr>isClosing := True\<rparr>) (mcpSessions sm)\<rparr>;
                sm2 = sm1\<lparr>closeLog := closeLog sm1 @ [TransportClose sid]\<rparr>;
                sm3 = (if transportCloseFails (transport s) then sm2
                       else sm2\<lparr>closeLog := closeLog sm2 @ [ServerClose sid]\<rparr>);
                sm4 = sm3\<lparr>mcpSessions := AList.delete sid (mcpSessions sm3)\<rparr>
            in (True, sm4))"

text \<open>
  The first, synchronous piece of \<open>cleanupStaleSessions()\<close>, the body of the one-minute
  timer: the stale ids, collected in one pass over the map.
\<close>

definition staleSessionIds :: "int \<Rightarrow> SessionManager \<Rightarrow> string list" where
  "staleSessionIds now sm =
     map fst
       (filter (\<lambda>(i, s). \<not> isClosing s \<and>
                          (now - lastAccessedAt s > staleTimeoutMs \<and> activeRequests s = 0))
          (mcpSessions sm))"

subsection \<open>Interleaved executions\<close>

text \<open>
  \<open>closeSession\<close> is asynchronous: it runs from its entry to
  \<open>await session.transport.close()\<close>, later from there to
  \<open>await session.server.close()\<close> (or, when the transport's close rejected, through the
  \<open>catch\<close> block to the end), and later from there to the end.  Between these three
  pieces other code runs: requests, other calls of \<open>closeSession\<close> (from the
  \<open>DELETE\<close> handler, from the transport's close hook, from \<open>closeSessionsByToken\<close>, from
  the idle sweep, from \<open>shutdown\<close>), session creation.

  A pending call remembers where it is suspended and the session object it read at its
  entry.

  After its selection pass the idle sweep runs
  \<open>for (const sessionId of staleSessionIds) { await this.closeSession(sessionId); }\<close>:
  it calls \<open>closeSession\<close> for one selected id after the other and waits for each call
  to finish, while other code runs.  \<open>sweepQueue\<close> holds the selected ids the tick has
  not reached yet, \<open>sweepAwaits\<close> the id whose \<open>closeSession\<close> the tick is waiting for.
\<close>

datatype close_pc = AwaitTransportClose | AwaitServerClose

text \<open>The piece from the entry to the first \<open>await\<close>.\<close>

definition closeSession_enter :: "string \<Rightarrow> SessionManager \<Rightarrow> McpSession option \<times> SessionManager" where
  "closeSession_enter sid sm =
     (case map_of (mcpSessions sm) sid of
        None \<Rightarrow> (None, sm)
      | Some s \<Rightarrow>
          if isClosing s then (None, sm)
          else
            let sm1 = sm\<lparr>mcpSessions := AList.update sid (s\<lparr>isClosing := True\<rparr>) (mcpSessions sm)\<rparr>
            in (Some s, sm1\<lparr>closeLog := closeLog sm1 @ [TransportClose sid]\<rparr>))"

text \<open>
  The piece after \<open>transport.close()\<close> has settled: to the next \<open>await\<close>, or to the end
  when the close rejected.
\<close>

definition closeSession_afterTransport ::
  "string \<Rightarrow> McpSession \<Rightarrow> SessionManager \<Rightarrow> close_pc option \<times> SessionManager" where
  "closeSession_afterTransport sid s sm =
     (if transportCloseFails (transport s)
      then (None, sm\<lparr>mcpSessions := AList.delete sid (mcpSessions sm)\<rparr>)
      else (Some AwaitServerClose, sm\<lparr>closeLog := closeLog sm @ [ServerClose sid]\<rparr>))"

text \<open>The piece after \<open>server.close()\<close> has settled.\<close>

definition closeSession_afterServer :: "string \<Rightarrow> SessionManager \<Rightarrow> SessionManager" where
  "closeSession_afterServer sid sm = sm\<lparr>mcpSessions := AList.delete sid (mcpSessions sm)\<rparr>"

record sm_sim =
  manager :: SessionManager
  pending :: "(string \<times> close_pc \<times> McpSession) list"
  sweepQueue :: "string list"
  sweepAwaits :: "string option"

definition sm_sim_init :: sm_sim where
  "sm_sim_init =
     \<lparr>manager = newSessionManager, pending = [], sweepQueue = [], sweepAwaits = None\<rparr>"

fun event_id :: "sm_event \<Rightarrow> string" where
  "event_id (TransportClose i) = i"
| "event_id (ServerClose i) = i"

text \<open>
  The steps of an interleaved execution.  \<open>CallClose i\<close> is a call of
  \<open>closeSession(i)\<close> by any caller, run to its first \<open>await\<close>; \<open>Resume i\<close> continues the
  pending call for \<open>i\<close> by one piece.  \<open>Create\<close> stores a session under an id that
  \<open>randomUUID()\<close> returned; such an id has not been used before, so a \<open>Create\<close> with a
  used id is not a step of the system and leaves the state as it is.  \<open>SweepSelect now\<close>
  is the selection pass of a tick of the idle sweep at time \<open>now\<close>, \<open>SweepNext\<close> the
  tick's call of \<open>closeSession\<close> for its next selected id, run to the first \<open>await\<close>
  of that call; it can happen only when the tick is not waiting for its previous call.
  (One tick runs at a time: a tick that the timer starts while the previous one is still
  running is left out.)
\<close>

datatype sm_action =
    Create McpServer string string Transport int
  | Get string int
  | Increment string int
  | Decrement string int
  | CallClose string
  | Resume string
  | SweepSelect int
  | SweepNext

definition usedIds :: "sm_sim \<Rightarrow> string set" where
  "usedIds st = fst ` set (mcpSessions (manager st)) \<union> event_id ` set (closeLog (manager st))"

fun sm_apply :: "sm_action \<Rightarrow> sm_sim \<Rightarrow> sm_sim" where
  "sm_apply (Create srv tok sid tr now) st =
     (if sid \<in> usedIds st then st
      else case createSession_mcp srv tok sid tr now None (manager st) of
             Inl e \<Rightarrow> st
           | Inr (r, sm') \<Rightarrow> st\<lparr>manager := sm'\<rparr>)"
| "sm_apply (Get sid now) st = st\<lparr>manager := snd (getSession_mcp sid now (manager st))\<rparr>"
| "sm_apply (Increment sid now) st = st\<lparr>manager := incrementActiveRequests sid now (manager st)\<rparr>"
| "sm_apply (Decrement sid now) st = st\<lparr>manager := decrementActiveRequests sid now (manager st)\<rparr>"
| "sm_apply (CallClose sid) st =
     (case closeSession_enter sid (manager st) of
        (None, sm') \<Rightarrow> st\<lparr>manager := sm'\<rparr>
      | (Some s, sm') \<Rightarrow>
          st\<lparr>manager := sm', pending := pending st @ [(sid, AwaitTransportClose, s)]\<rparr>)"
| "sm_apply (Resume sid) st =
     (case map_of (pending st) sid of
        None \<Rightarrow> st
      | Some (AwaitTransportClose, s) \<Rightarrow>
          (case closeSession_afterTransport sid s (manager st) of
             (None, sm') \<Rightarrow>
               st\<lparr>manager := sm', pending := AList.delete sid (pending st),
                  sweepAwaits := (if sweepAwaits st = Some sid then None else sweepAwaits st)\<rparr>
           | (Some pc, sm') \<Rightarrow>
               st\<lparr>manager := sm', pending := AList.update sid (pc, s) (pending st)\<rparr>)
      | Some (AwaitServerClose, s) \<Rightarrow>
          st\<lparr>manager := closeSession_afterServer sid (manager st),
             pending := AList.delete sid (pending st),
             sweepAwaits := (if sweepAwaits st = Some sid then None else sweepAwaits st)\<rparr>)"
| "sm_apply (SweepSelect now) st =
     (if sweepQueue st = [] \<and> sweepAwaits st = None
      then st\<lparr>sweepQueue := staleSessionIds now (manager st)\<rparr>
      else st)"
| "sm_apply SweepNext st =
     (if sweepAwaits st \<noteq> None then st
      else case sweepQueue st of
             [] \<Rightarrow> st
           | sid # rest \<Rightarrow>
               (case closeSession_enter sid (manager st) of
                  (None, sm') \<Rightarrow> st\<lparr>manager := sm', sweepQueue := rest\<rparr>
                | (Some s, sm') \<Rightarrow>
                    st\<lparr>manager := sm',
                       pending := pending st @ [(sid, AwaitTransportClose, s)],
                       sweepQueue := rest, sweepAwaits := Some sid\<rparr>))"

definition sm_run :: "sm_action list \<Rightarrow> sm_sim" where
  "sm_run acts = fold sm_apply acts sm_sim_init"

definition exampleServer :: McpServer where
  "exampleServer = \<lparr>serverConfig = exampleConfig, serverSessionKey = ''global''\<rparr>"

definition exampleSession :: "string \<Rightarrow> int \<Rightarrow> int \<Rightarrow> bool \<Rightarrow> McpSession" where
  "exampleSession sid accessed active closing =
     \<lparr>sessionId = sid, server = exampleServer, transport = \<lparr>transportCloseFails = False\<rparr>,
      authToken = ''global'', sessionCreatedAt = 0, lastAccessedAt = accessed,
      activeRequests = active, isClosing = closing\<rparr>"


section \<open>Session pool registry\<close>

text \<open>
  A database pool is a collaborator; the model keeps whether its probe query and its
  \<open>close()\<close> reject.  \<open>poolLog\<close> records every call of \<open>close()\<close> on a pool of the
  session map, with the key of the pool and whether the call rejected.
\<close>

record Pool =
  poolConfig :: DB2iConfig
  queryFails :: bool
  poolCloseFails :: bool

datatype pool_event = PoolClosed string | PoolCloseError string

fun pool_event_key :: "pool_event \<Rightarrow> string" where
  "pool_event_key (PoolClosed k) = k"
| "pool_event_key (PoolCloseError k) = k"

record PoolRegistry =
  globalPool :: "Pool option"
  sessionPools :: "(string \<times> Pool) list"
  poolLog :: "pool_event list"

definition emptyRegistry :: PoolRegistry where
  "emptyRegistry = \<lparr>globalPool = None, sessionPools = [], poolLog = []\<rparr>"

text \<open>
  \<open>initializeSessionPool(sessionId, config)\<close>.  \<open>newPool\<close> is the outcome of
  \<open>pool(buildConnectionConfig(config))\<close>: the pool, or what the call throws.
\<close>

definition initializeSessionPool ::
  "string \<Rightarrow> DB2iConfig \<Rightarrow> error + Pool \<Rightarrow> PoolRegistry \<Rightarrow> error + PoolRegistry" where
  "initializeSessionPool sid cfg newPool reg =
     (if map_of (sessionPools reg) sid \<noteq> None then Inr reg
      else case newPool of
             Inl e \<Rightarrow> Inl e
           | Inr p \<Rightarrow> Inr (reg\<lparr>sessionPools := AList.update sid p (sessionPools reg)\<rparr>))"

text \<open>
  \<open>closeSessionPool(sessionId)\<close>, run without anything else in between: the entry is
  read, \<open>close()\<close> is called on the pool and awaited, and the entry is deleted, in the
  \<open>try\<close> block or, when \<open>close()\<close> rejected, in the \<open>catch\<close> block.
\<close>

definition closeSessionPool :: "string \<Rightarrow> PoolRegistry \<Rightarrow> PoolRegistry" where
  "closeSessionPool sid reg =
     (case map_of (sessionPools reg) sid of
        None \<Rightarrow> reg
      | Some p \<Rightarrow>
          if \<not> poolCloseFails p then
            reg\<lparr>sessionPools := AList.delete sid (sessionPools reg),
                poolLog := poolLog reg @ [PoolClosed sid]\<rparr>
          else
            reg\<lparr>sessionPools := AList.delete sid (sessionPools reg),
                poolLog := poolLog reg @ [PoolCloseError sid]\<rparr>)"

definition getPool :: "string \<Rightarrow> PoolRegistry \<Rightarrow> error + Pool" where
  "getPool sid reg =
     (if sid \<noteq> [] then
        (case map_of (sessionPools reg) sid of
           None \<Rightarrow> Inl (Error (''Session pool not found for session: '' @ take 8 sid @ ''...''))
         | Some p \<Rightarrow> Inr p)
      else
        (case globalPool reg of
           None \<Rightarrow> Inl (Error ''Global connection pool not initialized. Call initializePool first.'')
         | Some p \<Rightarrow> Inr p))"

text \<open>
  \<open>testSessionConnection(sessionId)\<close>: the probe query through \<open>executeQuery\<close>; every
  failure, a missing pool included, gives \<open>false\<close>.
\<close>

definition testSessionConnection :: "string \<Rightarrow> PoolRegistry \<Rightarrow> bool" where
  "testSessionConnection sid reg =
     (case getPool sid reg of
        Inl e \<Rightarrow> False
      | Inr p \<Rightarrow> \<not> queryFails p)"


section \<open>HTTP handlers\<close>

subsection \<open>The credential probe of \<open>POST /auth\<close>\<close>

text \<open>
  The block of the \<open>/auth\<close> handler from the choice of the transient pool id to the
  responses it sends itself.  \<open>rnd\<close> is \<open>crypto.randomBytes(16).toString('hex')\<close>.  The
  handler either answers 401 or goes on to mint the token.  (The failed-attempt counter
  of the throttle is not part of this model.)
\<close>

datatype probe_result = ProbePassed | Rejected int string string

definition authProbe ::
  "string \<Rightarrow> DB2iConfig \<Rightarrow> error + Pool \<Rightarrow> PoolRegistry \<Rightarrow> probe_result \<times> PoolRegistry" where
  "authProbe rnd cfg newPool reg =
     (let testPoolId = ''auth-test-'' @ rnd in
      case initializeSessionPool testPoolId cfg newPool reg of
        Inl (Error message) \<Rightarrow>
          (Rejected 401 ''invalid_credentials'' (''Authentication failed: '' @ message),
           closeSessionPool testPoolId reg)
      | Inr reg1 \<Rightarrow>
          let connected = testSessionConnection testPoolId reg1;
              reg2 = closeSessionPool testPoolId reg1
          in if \<not> connected then
               (Rejected 401 ''invalid_credentials''
                  ''Authentication failed: unable to connect to database'', reg2)
             else (ProbePassed, reg2))"

subsection \<open>The initialize path of \<open>POST /mcp\<close> in stateful mode\<close>

datatype AuthMode = AuthRequired | AuthToken | AuthNone

record HttpState =
  poolRegistry :: PoolRegistry
  sessionManager :: SessionManager
  tokenManager :: TokenManager
  closedServers :: "McpServer list"

text \<open>
  The choice of the database configuration and of the session key.  \<open>envConfig\<close> is the
  outcome of \<open>loadConfig()\<close>; \<open>tokSession\<close> and \<open>tok\<close> are what the auth middleware
  attached to the request.  An error is the status and message of the response.
\<close>

definition selectSessionKey ::
  "AuthMode \<Rightarrow> error + DB2iConfig \<Rightarrow> TokenSession option \<Rightarrow> string option
     \<Rightarrow> (int \<times> string) + (DB2iConfig \<times> string)" where
  "selectSessionKey mode envConfig tokSession tok =
     (if mode = AuthNone \<or> mode = AuthToken then
        (case envConfig of
           Inl (Error message) \<Rightarrow> Inl (500, ''DB configuration error: '' @ message)
         | Inr cfg \<Rightarrow> Inr (cfg, ''global''))
      else
        (case (tokSession, tok) of
           (Some s, Some t) \<Rightarrow>
             if t = [] then Inl (401, ''Token session not found'') else Inr (config s, t)
         | _ \<Rightarrow> Inl (401, ''Token session not found'')))"

text \<open>\<open>createServer(config, sessionKey)\<close>, with what it throws, if it does.\<close>

definition createMcpServer :: "DB2iConfig \<Rightarrow> string \<Rightarrow> error option \<Rightarrow> error + McpServer" where
  "createMcpServer cfg key createError =
     (case createError of
        Some e \<Rightarrow> Inl e
      | None \<Rightarrow> Inr \<lparr>serverConfig = cfg, serverSessionKey = key\<rparr>)"

text \<open>
  The collaborators' outcomes on one initialize request: the pool that would be opened,
  what server construction and \<open>server.connect\<close> throw, the session id and the transport.
\<close>

record InitOutcome =
  newPool :: "error + Pool"
  createError :: "error option"
  connectError :: "error option"
  newSessionId :: string
  newTransport :: Transport

text \<open>The \<open>catch\<close> block of the initialize path, given the server if one was created.\<close>

definition initializeCleanup :: "McpServer option \<Rightarrow> string \<Rightarrow> HttpState \<Rightarrow> HttpState" where
  "initializeCleanup mcpServer sessionKey st =
     (let st1 = (case mcpServer of
                   Some srv \<Rightarrow> st\<lparr>closedServers := closedServers st @ [srv]\<rparr>
                 | None \<Rightarrow> st)
      in if sessionKey \<noteq> ''global''
         then st1\<lparr>poolRegistry := closeSessionPool sessionKey (poolRegistry st1)\<rparr>
         else st1)"

text \<open>
  The initialize branch: ensure the pool, create the server and the session, clean up
  and rethrow when one of the latter two fails, attach the session id to the token in
  required mode.  The result is the error that reaches the handler's outer \<open>catch\<close>, or
  the new session id.
\<close>

definition statefulInitialize ::
  "AuthMode \<Rightarrow> string \<Rightarrow> DB2iConfig \<Rightarrow> InitOutcome \<Rightarrow> int \<Rightarrow> HttpState
     \<Rightarrow> (error + string) \<times> HttpState" where
  "statefulInitialize mode sessionKey dbConfig out now st =
     (case initializeSessionPool sessionKey dbConfig (newPool out) (poolRegistry st) of
        Inl e \<Rightarrow> (Inl e, st)
      | Inr reg1 \<Rightarrow>
          (let st1 = st\<lparr>poolRegistry := reg1\<rparr> in
           (case createMcpServer dbConfig sessionKey (createError out) of
              Inl e \<Rightarrow> (Inl e, initializeCleanup None sessionKey st1)
            | Inr srv \<Rightarrow>
                (case createSession_mcp srv sessionKey (newSessionId out) (newTransport out) now
                        (connectError out) (sessionManager st1) of
                   Inl e \<Rightarrow> (Inl e, initializeCleanup (Some srv) sessionKey st1)
                 | Inr ((sid, tr), sm') \<Rightarrow>
                     (let st2 = st1\<lparr>sessionManager := sm'\<rparr>
                      in (Inr sid,
                          (if mode = AuthRequired
                           then st2\<lparr>tokenManager :=
                                     setMcpSessionId sessionKey sid (tokenManager st2)\<rparr>
                           else st2)))))))"

subsection \<open>Interleaved executions of the pool registry\<close>

text \<open>
  \<open>closeSessionPool\<close> is asynchronous: it runs from its entry to
  \<open>await sessionPool.close()\<close>, and later from there to the end, where the entry is
  deleted.  Between the two pieces other code runs, other calls of \<open>closeSessionPool\<close>
  for the same key included.  A call of \<open>close()\<close> is logged when it is made, together
  with the way it will settle.
\<close>

definition closeSessionPool_enter :: "string \<Rightarrow> PoolRegistry \<Rightarrow> Pool option \<times> PoolRegistry" where
  "closeSessionPool_enter sid reg =
     (case map_of (sessionPools reg) sid of
        None \<Rightarrow> (None, reg)
      | Some p \<Rightarrow>
          (Some p,
           reg\<lparr>poolLog := poolLog reg @
                  [if \<not> poolCloseFails p then PoolClosed sid else PoolCloseError sid]\<rparr>))"

definition closeSessionPool_settle :: "string \<Rightarrow> PoolRegistry \<Rightarrow> PoolRegistry" where
  "closeSessionPool_settle sid reg = reg\<lparr>sessionPools := AList.delete sid (sessionPools reg)\<rparr>"

text \<open>
  The state of an interleaved execution: the registry, and the keys of the calls of
  \<open>closeSessionPool\<close> that wait for their \<open>close()\<close>, one entry for each call.
\<close>

record pool_sim =
  registry :: PoolRegistry
  closing :: "string list"

definition pool_sim_init :: pool_sim where
  "pool_sim_init = \<lparr>registry = emptyRegistry, closing = []\<rparr>"

definition callClosePool :: "string \<Rightarrow> pool_sim \<Rightarrow> pool_sim" where
  "callClosePool k st =
     (case closeSessionPool_enter k (registry st) of
        (None, reg') \<Rightarrow> st\<lparr>registry := reg'\<rparr>
      | (Some p, reg') \<Rightarrow> st\<lparr>registry := reg', closing := closing st @ [k]\<rparr>)"

text \<open>
  \<open>closeAllSessionPools()\<close> up to its \<open>await Promise.all(closePromises)\<close>: it calls
  \<open>closeSessionPool\<close> for every key of the map, and each of these calls runs to its own
  \<open>await\<close>.
\<close>

definition closeAllSessionPools_start :: "pool_sim \<Rightarrow> pool_sim" where
  "closeAllSessionPools_start st =
     (if length (sessionPools (registry st)) = 0 then st
      else fold callClosePool (map fst (sessionPools (registry st))) st)"

text \<open>
  The steps.  \<open>Ensure\<close> is a call of \<open>initializeSessionPool\<close>.  \<open>CallClosePool k\<close> is a
  call of \<open>closeSessionPool(k)\<close> by any caller (the initialize cleanup, the credential
  probe, the token cleanup callback), run to its \<open>await\<close>; \<open>SettleClosePool k\<close> lets one
  waiting call for \<open>k\<close> run to its end.  \<open>CloseAllStart\<close> is the call of
  \<open>closeAllSessionPools()\<close> that \<open>shutdownHttpServer\<close> makes, run to its \<open>await\<close>; the
  calls it started end by \<open>SettleClosePool\<close> steps.  The process starts a shutdown on
  every \<open>SIGINT\<close> and \<open>SIGTERM\<close> it receives, so \<open>CloseAllStart\<close> can occur more than
  once in an execution.
\<close>

datatype pool_action =
    Ensure string DB2iConfig "error + Pool"
  | CallClosePool string
  | SettleClosePool string
  | CloseAllStart

fun pool_apply :: "pool_action \<Rightarrow> pool_sim \<Rightarrow> pool_sim" where
  "pool_apply (Ensure k cfg opened) st =
     (case initializeSessionPool k cfg opened (registry st) of
        Inl e \<Rightarrow> st
      | Inr reg' \<Rightarrow> st\<lparr>registry := reg'\<rparr>)"
| "pool_apply (CallClosePool k) st = callClosePool k st"
| "pool_apply (SettleClosePool k) st =
     (if k \<in> set (closing st)
      then st\<lparr>registry := closeSessionPool_settle k (registry st),
              closing := remove1 k (closing st)\<rparr>
      else st)"
| "pool_apply CloseAllStart st = closeAllSessionPools_start st"

definition pool_run :: "pool_action list \<Rightarrow> pool_sim" where
  "pool_run acts = fold pool_apply acts pool_sim_init"

definition examplePool :: "bool \<Rightarrow> bool \<Rightarrow> Pool" where
  "examplePool qf cf = \<lparr>poolConfig = exampleConfig, queryFails = qf, poolCloseFails = cf\<rparr>"


section \<open>Example states\<close>

text \<open>
  A token manager with a registered callback that holds the token \<open>abc\<close>, issued at
  time 0 with the default lifetime of 3600 seconds.
\<close>

definition exampleTokenManager :: TokenManager where
  "exampleTokenManager =
     \<lparr>sessions = [(''abc'', \<lparr>token = ''abc'', config = exampleConfig, createdAt = 0,
                     expiresAt = 3600000, lastUsedAt = 0, mcpSessionId = None\<rparr>)],
      cleanupCallback = True, cleanupCalls = []\<rparr>"

definition cappedHttpConfig :: HttpConfig where
  "cappedHttpConfig = \<lparr>tokenExpiry = 3600, maxSessions = 1\<rparr>"

definition longExpiryHttpConfig :: HttpConfig where
  "longExpiryHttpConfig = \<lparr>tokenExpiry = 100000, maxSessions = 100\<rparr>"

text \<open>The expiry a call of \<open>createSession\<close> returned, if it returned.\<close>

definition expiryOf :: "error + (CreatedSession \<times> TokenManager) \<Rightarrow> int option" where
  "expiryOf r = (case r of Inl e \<Rightarrow> None | Inr (c, tm) \<Rightarrow> Some (cs_expiresAt c))"


definition exampleRateLimit :: RateLimitConfig where
  "exampleRateLimit = \<lparr>windowMs = 60000, maxRequests = 2, enabled = True\<rparr>"


section \<open>Auxiliary definitions\<close>

text \<open>
  The invariant of the interleaved executions of the session manager: no call to a
  collaborator is logged twice; a session with a pending \<open>closeSession\<close> is stored and
  marked closing; nothing is logged for a stored session that is not marked closing; a
  call still waiting for \<open>transport.close()\<close> has not called \<open>server.close()\<close>.
\<close>

definition sm_inv :: "sm_sim \<Rightarrow> bool" where
  "sm_inv st \<longleftrightarrow>
     distinct (closeLog (manager st)) \<and>
     (\<forall>sid. map_of (pending st) sid \<noteq> None \<longrightarrow>
        (\<exists>s. map_of (mcpSessions (manager st)) sid = Some s \<and> isClosing s)) \<and>
     (\<forall>sid s. map_of (mcpSessions (manager st)) sid = Some s \<and> \<not> isClosing s \<longrightarrow>
        sid \<notin> event_id ` set (closeLog (manager st))) \<and>
     (\<forall>sid s. map_of (pending st) sid = Some (AwaitTransportClose, s) \<longrightarrow>
        ServerClose sid \<notin> set (closeLog (manager st)))"

text \<open>
  A session whose transport rejects its \<open>close()\<close>, alone in a session manager.
\<close>

definition failingTransportManager :: SessionManager where
  "failingTransportManager =
     \<lparr>mcpSessions =
        [(''s1'', \<lparr>sessionId = ''s1'', server = exampleServer,
                   transport = \<lparr>transportCloseFails = True\<rparr>, authToken = ''global'',
                   sessionCreatedAt = 0, lastAccessedAt = 0, activeRequests = 0,
                   isClosing = False\<rparr>)],
      closeLog = []\<rparr>"

text \<open>
  An execution with two sessions created at time 0.  A tick of the idle sweep at
  2000000 ms selects both and starts to close \<open>s1\<close>.  While the tick waits, a request
  for \<open>s2\<close> arrives (\<open>getSession\<close>, \<open>incrementActiveRequests\<close>) and is in flight.  The
  close of \<open>s1\<close> finishes, and the tick goes on to \<open>s2\<close>.
\<close>

definition sweepRaceBefore :: "sm_action list" where
  "sweepRaceBefore =
     [Create exampleServer ''global'' ''s1'' \<lparr>transportCloseFails = False\<rparr> 0,
      Create exampleServer ''global'' ''s2'' \<lparr>transportCloseFails = False\<rparr> 0,
      SweepSelect 2000000, SweepNext,
      Get ''s2'' 2000001, Increment ''s2'' 2000001,
      Resume ''s1'', Resume ''s1'']"

definition sweepRace :: "sm_action list" where
  "sweepRace = sweepRaceBefore @ [SweepNext]"


section \<open>Token strings and pool keys\<close>

text \<open>
  \<open>generateTokenString()\<close> is \<open>crypto.randomBytes(32).toString('base64url')\<close>: the
  unpadded base64 encoding, in the URL-safe alphabet, of the 32 random bytes.  A byte is
  a natural number below 256.
\<close>

definition base64url_alphabet :: string where
  "base64url_alphabet = ''ABCDEFGHIJKLMNOPQRSTUVWXYZabcdefghijklmnopqrstuvwxyz0123456789-_''"

fun base64url :: "nat list \<Rightarrow> string" where
  "base64url (a # b # c # rest) =
     [base64url_alphabet ! (a div 4),
      base64url_alphabet ! ((a mod 4) * 16 + b div 16),
      base64url_alphabet ! ((b mod 16) * 4 + c div 64),
      base64url_alphabet ! (c mod 64)] @ base64url rest"
| "base64url [a, b] =
     [base64url_alphabet ! (a div 4),
      base64url_alphabet ! ((a mod 4) * 16 + b div 16),
      base64url_alphabet ! ((b mod 16) * 4)]"
| "base64url [a] =
     [base64url_alphabet ! (a div 4),
      base64url_alphabet ! ((a mod 4) * 16)]"
| "base64url [] = []"

definition generateTokenString :: "nat list \<Rightarrow> string" where
  "generateTokenString randomBytes = base64url randomBytes"

text \<open>
  The cleanup callback that \<open>startHttpServer\<close> registers with the token manager in
  required mode.
\<close>

definition tokenCleanupCallback :: "string \<Rightarrow> PoolRegistry \<Rightarrow> PoolRegistry" where
  "tokenCleanupCallback tok reg = closeSessionPool tok reg"

text \<open>How often \<open>close()\<close> was called on a pool stored under a key.\<close>

definition poolCloses :: "string \<Rightarrow> PoolRegistry \<Rightarrow> nat" where
  "poolCloses k reg = length (filter (\<lambda>e. pool_event_key e = k) (poolLog reg))"

definition exampleRegistry :: PoolRegistry where
  "exampleRegistry =
     \<lparr>globalPool = None,
      sessionPools = [(''global'', examplePool False False), (''tok1'', examplePool False True)],
      poolLog = []\<rparr>"

definition exampleHttpState :: HttpState where
  "exampleHttpState =
     \<lparr>poolRegistry = exampleRegistry, sessionManager = newSessionManager,
      tokenManager = newTokenManager, closedServers = []\<rparr>"

text \<open>
  Two executions of the pool registry.  In the first the pool \<open>global\<close> and a pool for
  the token \<open>tok1\<close> are opened, and the token's pool is closed by the cleanup callback.
  In the second the pool \<open>global\<close> is opened and two shutdowns overlap: the second
  reaches \<open>closeAllSessionPools()\<close> while the \<open>close()\<close> of the first is still pending.
\<close>

definition beforeShutdown :: "pool_action list" where
  "beforeShutdown =
     [Ensure ''global'' exampleConfig (Inr (examplePool False False)),
      Ensure ''tok1'' exampleConfig (Inr (examplePool False False)),
      CallClosePool ''tok1'', SettleClosePool ''tok1'']"

definition overlappingShutdowns :: "pool_action list" where
  "overlappingShutdowns =
     [Ensure ''global'' exampleConfig (Inr (examplePool False False)),
      CloseAllStart, CloseAllStart, SettleClosePool ''global'', SettleClosePool ''global'']"

definition failingConnect :: InitOutcome where
  "failingConnect =
     \<lparr>newPool = Inr (examplePool False False), createError = None,
      connectError = Some (Error ''connect failed''), newSessionId = ''s1'',
      newTransport = \<lparr>transportCloseFails = False\<rparr>\<rparr>"


chapter \<open>Properties\<close>

section \<open>Token manager\<close>

lemma length_update:
  "length (AList.update k v al) = (if k \<in> fst ` set al then length al else Suc (length al))"
  by (induction al) auto

lemma update_present_length:
  "map_of al k = Some v \<Longrightarrow> length (AList.update k w al) = length al"
  by (auto simp: length_update dest: map_of_SomeD intro: rev_image_eqI)

lemma prefix_str_includes: "prefix sub s \<Longrightarrow> str_includes s sub"
  by (cases s) auto

lemma sessions_notifyCleanup [simp]: "sessions (notifyCleanup t tm) = sessions tm"
  by (simp add: notifyCleanup_def)

subsection \<open>Expiry found by validation\<close>

text \<open>
  C1.  The token \<open>abc\<close> was issued at time 0 for 3600 seconds to a token manager with a
  registered cleanup callback.  Validating it one millisecond after its expiry returns
  the invalid result \<open>Token expired\<close> and deletes the entry, but the callback is not
  invoked: the record of invocations is still empty, and it stays empty through a later
  sweep and the shutdown, since the entry is gone by then.  Over the lifetime of this
  token the callback runs zero times.
\<close>

theorem validateToken_expired_skips_callback:
  "validateToken ''abc'' 3600001 exampleTokenManager =
     (\<lparr>valid = False, session = None, error = Some ''Token expired''\<rparr>,
      exampleTokenManager\<lparr>sessions := []\<rparr>) \<and>
   cleanupCalls (shutdown (cleanupExpiredSessions 3700000
      (snd (validateToken ''abc'' 3600001 exampleTokenManager)))) = []"
  by (simp add: validateToken_def exampleTokenManager_def shutdown_def cleanupExpiredSessions_def
      expiredTokens_def AList.delete_eq)

subsection \<open>The session cap\<close>

lemma length_fold_expireToken:
  "length (sessions (fold expireToken ts tm)) \<le> length (sessions tm)"
proof (induction ts arbitrary: tm)
  case Nil
  show ?case by simp
next
  case (Cons t ts)
  have "length (sessions (expireToken t tm)) \<le> length (sessions tm)"
    by (simp add: expireToken_def AList.length_delete_le)
  with Cons.IH [of "expireToken t tm"] show ?case by simp
qed

lemma tm_apply_cap:
  assumes "int (length (sessions tm)) \<le> maxSessions hc"
  shows "int (length (sessions (tm_apply hc op tm))) \<le> maxSessions hc"
proof (cases op)
  case (OpCreate cfg d tok now)
  then show ?thesis using assms
    by (auto simp: createSession_def Let_def length_update)
next
  case (OpValidate tok now)
  have "length (sessions (snd (validateToken tok now tm))) \<le> length (sessions tm)"
    using AList.length_delete_le [of tok "sessions tm"]
    by (auto simp: validateToken_def Let_def update_present_length split: option.splits)
  then show ?thesis using assms OpValidate by simp
next
  case (OpRevoke tok)
  have "length (sessions (snd (revokeToken tok tm))) \<le> length (sessions tm)"
    using AList.length_delete_le [of tok "sessions tm"]
    by (auto simp: revokeToken_def split: option.splits)
  then show ?thesis using assms OpRevoke by simp
next
  case (OpSweep now)
  then show ?thesis using assms length_fold_expireToken [of "expiredTokens now tm" tm]
    by (simp add: cleanupExpiredSessions_def)
next
  case (OpExpire tok)
  then show ?thesis using assms AList.length_delete_le [of tok "sessions tm"]
    by (simp add: expireToken_def)
next
  case OpShutdown
  then show ?thesis using assms by (simp add: shutdown_def)
next
  case (OpSetMcpSessionId tok sid)
  then show ?thesis using assms
    by (auto simp: setMcpSessionId_def update_present_length split: option.splits)
next
  case OpSetCleanupCallback
  then show ?thesis using assms by (simp add: setCleanupCallback_def)
qed

lemma fold_tm_apply_cap:
  "int (length (sessions tm)) \<le> maxSessions hc \<Longrightarrow>
   int (length (sessions (fold (tm_apply hc) ops tm))) \<le> maxSessions hc"
  by (induction ops arbitrary: tm) (simp_all add: tm_apply_cap)

text \<open>
  C2.  With a cap that is not negative, after every prefix of every sequence of
  creations, validations, revocations, sweeps, single expiries and shutdowns applied to a
  fresh token manager the number of stored sessions is at most \<open>maxSessions\<close>.  And \<open>createSession\<close>, called on a
  store that holds \<open>maxSessions\<close> entries or more, throws an error whose message contains
  \<open>Maximum concurrent sessions\<close>.  The size check and the insertion are one synchronous
  piece of code, hence one step of a run: no other operation comes between them.
\<close>

theorem createSession_cap:
  "(0 \<le> maxSessions hc \<longrightarrow>
      (\<forall>n. int (length (sessions (tm_run hc (take n ops)))) \<le> maxSessions hc)) \<and>
   (maxSessions hc \<le> int (length (sessions tm)) \<longrightarrow>
      (\<exists>msg. createSession hc cfg d tok now tm = Inl (Error msg) \<and>
             str_includes msg ''Maximum concurrent sessions''))"
proof (intro conjI impI allI)
  fix n
  assume "0 \<le> maxSessions hc"
  then show "int (length (sessions (tm_run hc (take n ops)))) \<le> maxSessions hc"
    unfolding tm_run_def by (intro fold_tm_apply_cap) (simp add: newTokenManager_def)
next
  assume "maxSessions hc \<le> int (length (sessions tm))"
  then have "createSession hc cfg d tok now tm =
      Inl (Error (''Maximum concurrent sessions'' @ '' ('' @ string_of_int (maxSessions hc)
                      @ '') reached. Please try again later.''))"
    by (simp add: createSession_def)
  moreover have "str_includes (''Maximum concurrent sessions'' @ '' (''
      @ string_of_int (maxSessions hc) @ '') reached. Please try again later.'')
      ''Maximum concurrent sessions''"
    by (rule prefix_str_includes) (rule prefixI, rule refl)
  ultimately show "\<exists>msg. createSession hc cfg d tok now tm = Inl (Error msg) \<and>
             str_includes msg ''Maximum concurrent sessions''" by blast
qed

theorem createSession_cap_witness:
  "0 \<le> maxSessions cappedHttpConfig \<and>
   int (length (sessions (tm_run cappedHttpConfig
      (take 2 [OpCreate exampleConfig None ''abc'' 0, OpCreate exampleConfig None ''def'' 5,
               OpRevoke ''abc''])))) \<le> maxSessions cappedHttpConfig \<and>
   maxSessions cappedHttpConfig \<le> int (length (sessions exampleTokenManager)) \<and>
   (\<exists>msg. createSession cappedHttpConfig exampleConfig None ''def'' 5 exampleTokenManager
             = Inl (Error msg) \<and> str_includes msg ''Maximum concurrent sessions'')"
proof -
  note cap = createSession_cap [of cappedHttpConfig
      "[OpCreate exampleConfig None ''abc'' 0, OpCreate exampleConfig None ''def'' 5,
        OpRevoke ''abc'']" exampleTokenManager exampleConfig None "''def''" 5]
  have nonneg: "0 \<le> maxSessions cappedHttpConfig"
    by (simp add: cappedHttpConfig_def)
  have full: "maxSessions cappedHttpConfig \<le> int (length (sessions exampleTokenManager))"
    by (simp add: cappedHttpConfig_def exampleTokenManager_def)
  from cap nonneg have "\<forall>n. int (length (sessions (tm_run cappedHttpConfig
      (take n [OpCreate exampleConfig None ''abc'' 0, OpCreate exampleConfig None ''def'' 5,
               OpRevoke ''abc''])))) \<le> maxSessions cappedHttpConfig"
    by blast
  then have two: "int (length (sessions (tm_run cappedHttpConfig
      (take 2 [OpCreate exampleConfig None ''abc'' 0, OpCreate exampleConfig None ''def'' 5,
               OpRevoke ''abc''])))) \<le> maxSessions cappedHttpConfig"
    by (rule spec)
  from cap full have "\<exists>msg. createSession cappedHttpConfig exampleConfig None ''def'' 5
      exampleTokenManager = Inl (Error msg) \<and> str_includes msg ''Maximum concurrent sessions''"
    by blast
  with nonneg full two show ?thesis by blast
qed

subsection \<open>Revocation\<close>

text \<open>
  C9.  Revoking a token that is not in the store returns \<open>false\<close>, leaves the token
  manager (its session map and the record of callback invocations) as it was, and so
  does not invoke the cleanup callback.  In general \<open>revokeToken\<close> invokes the callback
  only when it deleted an entry: whenever the record of invocations changes, the token
  was stored before, is gone afterwards, the result is \<open>true\<close> and the callback was
  invoked once, with that token.
\<close>

theorem revokeToken_absent:
  "(map_of (sessions tm) tok = None \<longrightarrow> revokeToken tok tm = (False, tm)) \<and>
   (cleanupCalls (snd (revokeToken tok tm)) \<noteq> cleanupCalls tm \<longrightarrow>
      map_of (sessions tm) tok \<noteq> None \<and>
      map_of (sessions (snd (revokeToken tok tm))) tok = None \<and>
      fst (revokeToken tok tm) \<and>
      cleanupCalls (snd (revokeToken tok tm)) = cleanupCalls tm @ [tok])"
  by (auto simp: revokeToken_def notifyCleanup_def AList.delete_conv' split: option.splits)

theorem revokeToken_absent_witness:
  "map_of (sessions newTokenManager) ''nope'' = None \<and>
   revokeToken ''nope'' newTokenManager = (False, newTokenManager) \<and>
   cleanupCalls (snd (revokeToken ''abc'' exampleTokenManager)) \<noteq> cleanupCalls exampleTokenManager \<and>
   map_of (sessions exampleTokenManager) ''abc'' \<noteq> None \<and>
   map_of (sessions (snd (revokeToken ''abc'' exampleTokenManager))) ''abc'' = None \<and>
   fst (revokeToken ''abc'' exampleTokenManager) \<and>
   cleanupCalls (snd (revokeToken ''abc'' exampleTokenManager))
     = cleanupCalls exampleTokenManager @ [''abc'']"
  using revokeToken_absent [of newTokenManager "''nope''"]
    revokeToken_absent [of exampleTokenManager "''abc''"]
  by (simp add: newTokenManager_def exampleTokenManager_def revokeToken_def notifyCleanup_def
      AList.delete_eq)

subsection \<open>The expiry of a new token\<close>

text \<open>
  The statement that \<open>createSession\<close> clamps the lifetime it is given to 86400 seconds
  and to at least one second fails: called with 100000 seconds at time 0 it returns the
  expiry 100000000 ms, not 86400000 ms; called with 0 seconds it returns an expiry
  equal to the time of the call; and called without a duration under a configured
  default of 100000 seconds (\<open>MCP_TOKEN_EXPIRY=100000\<close>) it returns the expiry
  100000000 ms as well.
\<close>

theorem createSession_ttl_counterexample:
  "expiryOf (createSession exampleHttpConfig exampleConfig (Some 100000) ''abc'' 0 newTokenManager)
     = Some 100000000 \<and>
   expiryOf (createSession exampleHttpConfig exampleConfig (Some 100000) ''abc'' 0 newTokenManager)
     \<noteq> Some (0 + min 100000 86400 * 1000) \<and>
   expiryOf (createSession exampleHttpConfig exampleConfig (Some 0) ''abc'' 0 newTokenManager)
     = Some 0 \<and>
   expiryOf (createSession longExpiryHttpConfig exampleConfig None ''abc'' 0 newTokenManager)
     = Some 100000000 \<and>
   expiryOf (createSession longExpiryHttpConfig exampleConfig None ''abc'' 0 newTokenManager)
     \<noteq> Some (0 + min (tokenExpiry longExpiryHttpConfig) 86400 * 1000)"
  by (simp add: expiryOf_def createSession_def exampleHttpConfig_def longExpiryHttpConfig_def
      newTokenManager_def)

text \<open>
  C4, as amended.  Whenever \<open>createSession\<close> returns, the lifetime it reports is the
  \<open>durationSeconds\<close> it was given, or the configured default when none was given, and
  the expiry is the time of the call plus that many seconds; \<open>createSession\<close> itself
  applies no bound.  The bounds are those of \<open>validateAuthRequest\<close>, which rejects a
  \<open>duration\<close> below 1 or above 86400: for a duration it accepted and passed on, the
  expiry is \<open>now + min(duration, 86400)\<close> seconds and at least one second after the
  call; when the request has no duration, the expiry is the call time plus the
  configured default.
\<close>

theorem createSession_expiry:
  "createSession hc cfg d tok now tm = Inr (r, tm') \<Longrightarrow>
     cs_expiresIn r = (case d of Some x \<Rightarrow> x | None \<Rightarrow> tokenExpiry hc) \<and>
     cs_expiresAt r = now + cs_expiresIn r * 1000 \<and>
     (validateAuthRequest_duration j = Inr d \<longrightarrow>
        (case d of
           Some x \<Rightarrow> cs_expiresAt r = now + min x 86400 * 1000 \<and> now + 1000 \<le> cs_expiresAt r
         | None \<Rightarrow> cs_expiresAt r = now + tokenExpiry hc * 1000))"
  by (auto simp: createSession_def Let_def validateAuthRequest_duration_def
      split: if_splits option.splits json_field.splits)

theorem createSession_expiry_witness:
  "createSession exampleHttpConfig exampleConfig (Some 1800) ''abc'' 0 newTokenManager
     = Inr (\<lparr>cs_token = ''abc'', cs_expiresAt = 1800000, cs_expiresIn = 1800\<rparr>,
            newTokenManager\<lparr>sessions := [(''abc'', \<lparr>token = ''abc'', config = exampleConfig,
               createdAt = 0, expiresAt = 1800000, lastUsedAt = 0, mcpSessionId = None\<rparr>)]\<rparr>) \<and>
   validateAuthRequest_duration (JNumber 1800) = Inr (Some 1800) \<and>
   (1800000::int) = 0 + min 1800 86400 * 1000 \<and> (0::int) + 1000 \<le> 1800000"
  using createSession_expiry [of exampleHttpConfig exampleConfig "Some 1800" "''abc''" 0
      newTokenManager "\<lparr>cs_token = ''abc'', cs_expiresAt = 1800000, cs_expiresIn = 1800\<rparr>"
      "newTokenManager\<lparr>sessions := [(''abc'', \<lparr>token = ''abc'', config = exampleConfig,
               createdAt = 0, expiresAt = 1800000, lastUsedAt = 0, mcpSessionId = None\<rparr>)]\<rparr>"
      "JNumber 1800"]
  by (simp add: createSession_def exampleHttpConfig_def newTokenManager_def
      validateAuthRequest_duration_def)


section \<open>Rate limiter\<close>

lemma Math_ceil_div_ceiling:
  "Math_ceil_div a 1000 = \<lceil>real_of_int a / 1000\<rceil>"
proof -
  have "\<lceil>real_of_int a / real_of_int 1000\<rceil> = - (- a div 1000)"
    by (rule ceiling_divide_eq_div)
  then show ?thesis by (simp add: Math_ceil_div_def)
qed

text \<open>
  C5.  With the limiter enabled, let \<open>w\<close> be the window in force: a new window at
  \<open>now\<close> with count 0 when the stored one is absent or \<open>now \<ge> windowStart + windowMs\<close>,
  the stored one otherwise.  If the count of \<open>w\<close> is below the limit, \<open>checkLimit\<close>
  stores \<open>w\<close> with its count incremented and returns \<open>allowed = true\<close> with
  \<open>remaining\<close> equal to the limit minus the incremented count.  Otherwise it returns
  \<open>allowed = false\<close>, \<open>remaining = 0\<close> and
  \<open>retryAfterSeconds = ceil((resetTime - now) / 1000)\<close>, where \<open>resetTime\<close> is the start
  of \<open>w\<close> plus the window length, and the count is not incremented.  The windows of the
  other keys are untouched.
\<close>

theorem checkLimit_enabled:
  assumes "enabled cfg"
  shows "let w = windowInForce_spec cfg now (map_of windows key);
             (r, windows') = checkLimit cfg key now windows
         in (count w < maxRequests cfg \<longrightarrow>
               allowed r \<and> remaining r = maxRequests cfg - (count w + 1) \<and>
               map_of windows' = (map_of windows)(key \<mapsto> w\<lparr>count := count w + 1\<rparr>)) \<and>
            (\<not> count w < maxRequests cfg \<longrightarrow>
               \<not> allowed r \<and> remaining r = 0 \<and>
               resetTime r = windowStart w + windowMs cfg \<and>
               retryAfterSeconds r = \<lceil>real_of_int (resetTime r - now) / 1000\<rceil> \<and>
               map_of windows' = (map_of windows)(key \<mapsto> w))"
  using assms
  by (auto simp: checkLimit_def windowInForce_spec_def Let_def Math_ceil_div_ceiling
      AList.update_conv' fun_upd_idem split: option.splits)

theorem checkLimit_enabled_witness:
  "enabled exampleRateLimit \<and>
   count (windowInForce_spec exampleRateLimit 1500 (map_of [] ''default''))
     < maxRequests exampleRateLimit \<and>
   allowed (fst (checkLimit exampleRateLimit ''default'' 1500 [])) \<and>
   remaining (fst (checkLimit exampleRateLimit ''default'' 1500 [])) = 1 \<and>
   snd (checkLimit exampleRateLimit ''default'' 1500 [])
     = [(''default'', \<lparr>count = 1, windowStart = 1500\<rparr>)] \<and>
   \<not> count (windowInForce_spec exampleRateLimit 1500
        (map_of [(''default'', \<lparr>count = 2, windowStart = 0\<rparr>)] ''default''))
      < maxRequests exampleRateLimit \<and>
   fst (checkLimit exampleRateLimit ''default'' 1500 [(''default'', \<lparr>count = 2, windowStart = 0\<rparr>)])
     = \<lparr>allowed = False, remaining = 0, resetTime = 60000, retryAfterSeconds = 59, limit = 2,
        resultWindowMs = 60000\<rparr> \<and>
   (59::int) = \<lceil>real_of_int (60000 - 1500) / 1000\<rceil>"
  using checkLimit_enabled [of exampleRateLimit 1500 "[]" "''default''"]
    checkLimit_enabled [of exampleRateLimit 1500 "[(''default'', \<lparr>count = 2, windowStart = 0\<rparr>)]"
      "''default''"]
  by (simp add: exampleRateLimit_def checkLimit_def windowInForce_spec_def Math_ceil_div_def)


section \<open>MCP session manager\<close>

subsection \<open>Closing a session\<close>

lemma sm_inv_init: "sm_inv sm_sim_init"
  by (simp add: sm_inv_def sm_sim_init_def newSessionManager_def)

lemma sm_inv_Create: "sm_inv st \<Longrightarrow> sm_inv (sm_apply (Create srv tok sid tr now) st)"
  unfolding sm_inv_def
  apply (auto simp: createSession_mcp_def usedIds_def AList.update_conv' Let_def
           dom_map_of_conv_image_fst [symmetric]
           split: if_splits)
   apply (fastforce | blast)+
  done

lemma sm_inv_Get: "sm_inv st \<Longrightarrow> sm_inv (sm_apply (Get sid now) st)"
  unfolding sm_inv_def
  apply (auto simp: getSession_mcp_def AList.update_conv' Let_def split: if_splits option.splits)
   apply (fastforce | blast)+
  done

lemma sm_inv_Increment: "sm_inv st \<Longrightarrow> sm_inv (sm_apply (Increment sid now) st)"
  unfolding sm_inv_def
  apply (auto simp: incrementActiveRequests_def AList.update_conv' split: if_splits option.splits)
   apply (fastforce | blast)+
  done

lemma sm_inv_Decrement: "sm_inv st \<Longrightarrow> sm_inv (sm_apply (Decrement sid now) st)"
  unfolding sm_inv_def
  apply (auto simp: decrementActiveRequests_def AList.update_conv' split: if_splits option.splits)
   apply (fastforce | blast)+
  done

lemma sm_inv_CallClose: "sm_inv st \<Longrightarrow> sm_inv (sm_apply (CallClose sid) st)"
  unfolding sm_inv_def
  apply (auto simp: closeSession_enter_def AList.update_conv' Let_def image_iff
           split: if_splits option.splits)
   apply (fastforce | blast)+
  done

lemma sm_inv_Resume: "sm_inv st \<Longrightarrow> sm_inv (sm_apply (Resume sid) st)"
  unfolding sm_inv_def
  apply (auto simp: closeSession_afterTransport_def closeSession_afterServer_def
           AList.update_conv' AList.delete_conv' Let_def image_iff
           split: if_splits option.splits close_pc.splits)
   apply (fastforce | blast)+
  done

lemma sm_inv_SweepSelect: "sm_inv st \<Longrightarrow> sm_inv (sm_apply (SweepSelect now) st)"
  unfolding sm_inv_def by simp

lemma sm_inv_SweepNext: "sm_inv st \<Longrightarrow> sm_inv (sm_apply SweepNext st)"
  unfolding sm_inv_def
  apply (auto simp: closeSession_enter_def AList.update_conv' Let_def image_iff
           split: if_splits option.splits list.splits)
   apply (fastforce | blast)+
  done

lemma sm_inv_apply: "sm_inv st \<Longrightarrow> sm_inv (sm_apply a st)"
  by (cases a)
    (simp_all only: sm_inv_Create sm_inv_Get sm_inv_Increment sm_inv_Decrement
       sm_inv_CallClose sm_inv_Resume sm_inv_SweepSelect sm_inv_SweepNext)

lemma sm_inv_fold: "sm_inv st \<Longrightarrow> sm_inv (fold sm_apply acts st)"
  by (induction acts arbitrary: st) (simp_all add: sm_inv_apply)

lemma sm_inv_run: "sm_inv (sm_run acts)"
  unfolding sm_run_def by (rule sm_inv_fold) (rule sm_inv_init)

lemma distinct_count_le_1: "distinct xs \<Longrightarrow> count_list xs x \<le> 1"
  by (induction xs) auto

lemma closeSession_pieces:
  assumes "map_of (mcpSessions sm) sid = Some s" and "\<not> isClosing s"
  shows "closeSession sid sm =
     (True, case closeSession_afterTransport sid s (snd (closeSession_enter sid sm)) of
              (None, sm') \<Rightarrow> sm'
            | (Some pc, sm') \<Rightarrow> closeSession_afterServer sid sm')"
  using assms
  by (simp add: closeSession_def closeSession_enter_def closeSession_afterTransport_def
      closeSession_afterServer_def Let_def AList.delete_update_same)

text \<open>
  What \<open>closeSession(id)\<close> does, and how often it calls the collaborators.  It returns
  \<open>false\<close> and changes nothing when the session is absent or already marked closing.
  Otherwise its first piece marks the session closing and calls \<open>transport.close()\<close>,
  so that a further \<open>closeSession(id)\<close> from then on (the transport's close hook
  included) returns \<open>false\<close> without effect; run to its end it calls
  \<open>transport.close()\<close> once and, unless that rejected, \<open>server.close()\<close> once, deletes
  the entry and returns \<open>true\<close>.  In every interleaved execution from a fresh session
  manager (session creation, request accounting, calls of \<open>closeSession\<close> by any caller
  at any moment, ticks of the idle sweep, the pieces of pending calls in any order)
  \<open>transport.close()\<close> and \<open>server.close()\<close> are each called at most once for a
  session id.
\<close>

lemma closeSession_once:
  "(map_of (mcpSessions sm) sid = None \<or>
      (\<exists>s. map_of (mcpSessions sm) sid = Some s \<and> isClosing s)
    \<longrightarrow> closeSession sid sm = (False, sm)) \<and>
   (\<forall>s. map_of (mcpSessions sm) sid = Some s \<and> \<not> isClosing s \<longrightarrow>
      closeSession_enter sid sm =
        (Some s, sm\<lparr>mcpSessions := AList.update sid (s\<lparr>isClosing := True\<rparr>) (mcpSessions sm),
                    closeLog := closeLog sm @ [TransportClose sid]\<rparr>) \<and>
      closeSession sid (snd (closeSession_enter sid sm))
        = (False, snd (closeSession_enter sid sm)) \<and>
      closeSession sid sm =
        (True, case closeSession_afterTransport sid s (snd (closeSession_enter sid sm)) of
                 (None, sm') \<Rightarrow> sm'
               | (Some pc, sm') \<Rightarrow> closeSession_afterServer sid sm') \<and>
      closeSession sid sm =
        (True, sm\<lparr>mcpSessions := AList.delete sid (mcpSessions sm),
                  closeLog := closeLog sm @ TransportClose sid #
                    (if transportCloseFails (transport s) then [] else [ServerClose sid])\<rparr>)) \<and>
   count_list (closeLog (manager (sm_run acts))) (TransportClose sid) \<le> 1 \<and>
   count_list (closeLog (manager (sm_run acts))) (ServerClose sid) \<le> 1"
proof (intro conjI impI allI)
  assume "map_of (mcpSessions sm) sid = None \<or>
      (\<exists>s. map_of (mcpSessions sm) sid = Some s \<and> isClosing s)"
  then show "closeSession sid sm = (False, sm)"
    by (auto simp: closeSession_def)
next
  fix s assume h: "map_of (mcpSessions sm) sid = Some s \<and> \<not> isClosing s"
  then show "closeSession_enter sid sm =
        (Some s, sm\<lparr>mcpSessions := AList.update sid (s\<lparr>isClosing := True\<rparr>) (mcpSessions sm),
                    closeLog := closeLog sm @ [TransportClose sid]\<rparr>)"
    by (simp add: closeSession_enter_def)
  from h show "closeSession sid (snd (closeSession_enter sid sm))
        = (False, snd (closeSession_enter sid sm))"
    by (simp add: closeSession_enter_def closeSession_def AList.update_conv')
  from h show "closeSession sid sm =
        (True, case closeSession_afterTransport sid s (snd (closeSession_enter sid sm)) of
                 (None, sm') \<Rightarrow> sm'
               | (Some pc, sm') \<Rightarrow> closeSession_afterServer sid sm')"
    by (simp add: closeSession_pieces)
  from h show "closeSession sid sm =
        (True, sm\<lparr>mcpSessions := AList.delete sid (mcpSessions sm),
                  closeLog := closeLog sm @ TransportClose sid #
                    (if transportCloseFails (transport s) then [] else [ServerClose sid])\<rparr>)"
    by (simp add: closeSession_def Let_def AList.delete_update_same)
next
  have d: "distinct (closeLog (manager (sm_run acts)))"
    using sm_inv_run [of acts] by (simp add: sm_inv_def)
  from d show "count_list (closeLog (manager (sm_run acts))) (TransportClose sid) \<le> 1"
    by (rule distinct_count_le_1)
  from d show "count_list (closeLog (manager (sm_run acts))) (ServerClose sid) \<le> 1"
    by (rule distinct_count_le_1)
qed

text \<open>
  C6.  The session \<open>s1\<close> is stored, is not marked closing, and its transport rejects
  \<open>close()\<close>.  \<open>closeSession(s1)\<close> returns \<open>true\<close> and deletes the entry, but the only
  call it has made is \<open>transport.close()\<close>: the rejection passes control to the
  \<open>catch\<close> block, and \<open>server.close()\<close> is never called for this session, neither when
  the call runs undisturbed nor piece by piece in an interleaved execution.
\<close>

theorem closeSession_skips_server_close:
  "closeSession ''s1'' failingTransportManager
     = (True, \<lparr>mcpSessions = [], closeLog = [TransportClose ''s1'']\<rparr>) \<and>
   manager (sm_run [Create exampleServer ''global'' ''s1'' \<lparr>transportCloseFails = True\<rparr> 0,
                    CallClose ''s1'', Resume ''s1''])
     = \<lparr>mcpSessions = [], closeLog = [TransportClose ''s1'']\<rparr> \<and>
   pending (sm_run [Create exampleServer ''global'' ''s1'' \<lparr>transportCloseFails = True\<rparr> 0,
                    CallClose ''s1'', Resume ''s1'']) = []"
  by (simp add: closeSession_def failingTransportManager_def sm_run_def sm_sim_init_def
      newSessionManager_def usedIds_def createSession_mcp_def closeSession_enter_def
      closeSession_afterTransport_def Let_def AList.delete_eq)

subsection \<open>Idle eviction\<close>

lemma sweepRaceBefore_state:
  "sm_run sweepRaceBefore =
     \<lparr>manager =
        \<lparr>mcpSessions =
           [(''s2'', \<lparr>sessionId = ''s2'', server = exampleServer,
                      transport = \<lparr>transportCloseFails = False\<rparr>, authToken = ''global'',
                      sessionCreatedAt = 0, lastAccessedAt = 2000001, activeRequests = 1,
                      isClosing = False\<rparr>)],
         closeLog = [TransportClose ''s1'', ServerClose ''s1'']\<rparr>,
      pending = [], sweepQueue = [''s2''], sweepAwaits = None\<rparr>"
  by (simp add: sm_run_def sweepRaceBefore_def sm_sim_init_def newSessionManager_def
      usedIds_def createSession_mcp_def getSession_mcp_def incrementActiveRequests_def
      staleSessionIds_def staleTimeoutMs_def closeSession_enter_def
      closeSession_afterTransport_def closeSession_afterServer_def Let_def AList.delete_eq)

text \<open>
  C7.  Two sessions are created at time 0.  A tick of the idle sweep at 2000000 ms
  selects both, each idle for more than 30 minutes with no active request, and starts to
  close \<open>s1\<close>.  While the tick waits for that close, a request for \<open>s2\<close> arrives and is
  in flight: \<open>s2\<close> has \<open>activeRequests = 1\<close> and is not marked closing.  When the close
  of \<open>s1\<close> has finished, the tick goes on to \<open>s2\<close>, still in its queue, and
  \<open>closeSession\<close>, which does not look at \<open>activeRequests\<close>, marks \<open>s2\<close> closing and
  calls \<open>transport.close()\<close> on it: the sweep closes a session with an active request.
\<close>

theorem sweep_closes_active_session:
  "sweepQueue (sm_run (take 3 sweepRaceBefore)) = [''s1'', ''s2''] \<and>
   map_of (mcpSessions (manager (sm_run sweepRaceBefore))) ''s2''
     = Some \<lparr>sessionId = ''s2'', server = exampleServer,
              transport = \<lparr>transportCloseFails = False\<rparr>, authToken = ''global'',
              sessionCreatedAt = 0, lastAccessedAt = 2000001, activeRequests = 1,
              isClosing = False\<rparr> \<and>
   sweepQueue (sm_run sweepRaceBefore) = [''s2''] \<and>
   manager (sm_run sweepRace)
     = \<lparr>mcpSessions =
          [(''s2'', \<lparr>sessionId = ''s2'', server = exampleServer,
                     transport = \<lparr>transportCloseFails = False\<rparr>, authToken = ''global'',
                     sessionCreatedAt = 0, lastAccessedAt = 2000001, activeRequests = 1,
                     isClosing = True\<rparr>)],
        closeLog = [TransportClose ''s1'', ServerClose ''s1'', TransportClose ''s2'']\<rparr>"
proof -
  have sel: "sweepQueue (sm_run (take 3 sweepRaceBefore)) = [''s1'', ''s2'']"
    by (simp add: sm_run_def sweepRaceBefore_def sm_sim_init_def newSessionManager_def
        usedIds_def createSession_mcp_def staleSessionIds_def staleTimeoutMs_def Let_def)
  have after: "sm_run sweepRace = sm_apply SweepNext (sm_run sweepRaceBefore)"
    by (simp add: sm_run_def sweepRace_def)
  show ?thesis
    unfolding after sweepRaceBefore_state
    using sel by (simp add: closeSession_enter_def)
qed


section \<open>Session pools and HTTP handlers\<close>

subsection \<open>The credential probe\<close>

lemma closeSessionPool_removes:
  "map_of (sessionPools (closeSessionPool k reg)) k = None"
  by (simp add: closeSessionPool_def AList.delete_conv' split: option.splits)

lemma closeSessionPool_absent:
  "map_of (sessionPools reg) k = None \<Longrightarrow> closeSessionPool k reg = reg"
  by (simp add: closeSessionPool_def)

lemma delete_update_absent:
  "map_of al k = None \<Longrightarrow> AList.delete k (AList.update k v al) = al"
  by (simp add: AList.delete_update_same map_of_eq_None_iff)

text \<open>
  C10.  Whatever the credential probe meets (the pool cannot be opened, the probe query
  fails or succeeds, closing the pool rejects or not, the transient key is already in
  use or not), the registry holds no pool under the transient id \<open>auth-test-\<dots>\<close> when
  the handler answers or goes on: \<open>closeSessionPool\<close> is called on the success, the
  failure and the exception path, and \<open>closeSessionPool\<close> removes the entry of its key
  for every pool, also for one whose \<open>close()\<close> rejects.  When the transient id was
  not in use before, the session map is afterwards as it was before the probe, and the
  pool, if one was opened, had \<open>close()\<close> called exactly once.
\<close>

theorem authProbe_releases_pool:
  "map_of (sessionPools (snd (authProbe rnd cfg np reg))) (''auth-test-'' @ rnd) = None \<and>
   map_of (sessionPools (closeSessionPool k reg)) k = None \<and>
   (map_of (sessionPools reg) (''auth-test-'' @ rnd) = None \<longrightarrow>
      sessionPools (snd (authProbe rnd cfg np reg)) = sessionPools reg \<and>
      poolLog (snd (authProbe rnd cfg np reg)) =
        poolLog reg @
          (case np of
             Inl e \<Rightarrow> []
           | Inr p \<Rightarrow> [if poolCloseFails p then PoolCloseError (''auth-test-'' @ rnd)
                       else PoolClosed (''auth-test-'' @ rnd)]))"
proof (intro conjI impI)
  show "map_of (sessionPools (snd (authProbe rnd cfg np reg))) (''auth-test-'' @ rnd) = None"
    by (auto simp: authProbe_def Let_def closeSessionPool_removes
        split: sum.splits error.splits)
  show "map_of (sessionPools (closeSessionPool k reg)) k = None"
    by (rule closeSessionPool_removes)
next
  assume absent: "map_of (sessionPools reg) (''auth-test-'' @ rnd) = None"
  show "sessionPools (snd (authProbe rnd cfg np reg)) = sessionPools reg"
  proof (cases np)
    case (Inl e)
    with absent show ?thesis
      by (cases e) (simp add: authProbe_def initializeSessionPool_def closeSessionPool_absent)
  next
    case (Inr p)
    with absent show ?thesis
      by (simp add: authProbe_def initializeSessionPool_def closeSessionPool_def Let_def
          AList.update_conv' delete_update_absent)
  qed
  show "poolLog (snd (authProbe rnd cfg np reg)) =
        poolLog reg @
          (case np of
             Inl e \<Rightarrow> []
           | Inr p \<Rightarrow> [if poolCloseFails p then PoolCloseError (''auth-test-'' @ rnd)
                       else PoolClosed (''auth-test-'' @ rnd)])"
  proof (cases np)
    case (Inl e)
    with absent show ?thesis
      by (cases e) (simp add: authProbe_def initializeSessionPool_def closeSessionPool_absent)
  next
    case (Inr p)
    with absent show ?thesis
      by (simp add: authProbe_def initializeSessionPool_def closeSessionPool_def Let_def
          AList.update_conv')
  qed
qed

theorem authProbe_releases_pool_witness:
  "map_of (sessionPools exampleRegistry) (''auth-test-'' @ ''00ff'') = None \<and>
   authProbe ''00ff'' exampleConfig (Inr (examplePool True True)) exampleRegistry
     = (Rejected 401 ''invalid_credentials''
          ''Authentication failed: unable to connect to database'',
        exampleRegistry\<lparr>poolLog := [PoolCloseError ''auth-test-00ff'']\<rparr>) \<and>
   authProbe ''00ff'' exampleConfig (Inr (examplePool False False)) exampleRegistry
     = (ProbePassed, exampleRegistry\<lparr>poolLog := [PoolClosed ''auth-test-00ff'']\<rparr>) \<and>
   authProbe ''00ff'' exampleConfig (Inl (Error ''no driver'')) exampleRegistry
     = (Rejected 401 ''invalid_credentials'' ''Authentication failed: no driver'',
        exampleRegistry)"
  using authProbe_releases_pool [of "''00ff''" exampleConfig "Inr (examplePool True True)"
      exampleRegistry "''tok1''"]
  by (simp add: authProbe_def initializeSessionPool_def closeSessionPool_def
      testSessionConnection_def getPool_def exampleRegistry_def examplePool_def Let_def
      AList.delete_eq)


subsection \<open>The shared pool\<close>

lemma closeSessionPool_other:
  "k \<noteq> j \<Longrightarrow>
   poolCloses j (closeSessionPool k reg) = poolCloses j reg \<and>
   map_of (sessionPools (closeSessionPool k reg)) j = map_of (sessionPools reg) j"
  by (simp add: closeSessionPool_def poolCloses_def split: option.splits)

lemma closeSessionPool_present:
  "map_of (sessionPools reg) k = Some p \<Longrightarrow>
   poolCloses k (closeSessionPool k reg) = poolCloses k reg + 1"
  by (simp add: closeSessionPool_def poolCloses_def)

lemma length_base64url: "length (base64url bs) = (4 * length bs + 2) div 3"
  by (induction bs rule: base64url.induct) simp_all

lemma generateTokenString_not_global:
  "length randomBytes = 32 \<Longrightarrow> generateTokenString randomBytes \<noteq> ''global''"
proof
  assume "length randomBytes = 32" and "generateTokenString randomBytes = ''global''"
  then have "length (base64url randomBytes) = 6" by (simp add: generateTokenString_def)
  with \<open>length randomBytes = 32\<close> show False by (simp add: length_base64url)
qed

lemma initializeSessionPool_global:
  "initializeSessionPool key cfg np reg = Inr reg1 \<Longrightarrow>
   poolLog reg1 = poolLog reg \<and>
   (map_of (sessionPools reg) ''global'' = Some p \<longrightarrow> map_of (sessionPools reg1) ''global'' = Some p)"
  by (auto simp: initializeSessionPool_def AList.update_conv' split: if_splits sum.splits)

lemma initializeCleanup_global:
  "poolCloses ''global'' (poolRegistry (initializeCleanup srv key st))
     = poolCloses ''global'' (poolRegistry st) \<and>
   map_of (sessionPools (poolRegistry (initializeCleanup srv key st))) ''global''
     = map_of (sessionPools (poolRegistry st)) ''global''"
  by (cases srv) (simp_all add: initializeCleanup_def Let_def closeSessionPool_other)

lemma statefulInitialize_global:
  "poolCloses ''global'' (poolRegistry (snd (statefulInitialize mode key cfg out now st)))
     = poolCloses ''global'' (poolRegistry st) \<and>
   (map_of (sessionPools (poolRegistry st)) ''global'' = Some p \<longrightarrow>
      map_of (sessionPools (poolRegistry (snd (statefulInitialize mode key cfg out now st))))
        ''global'' = Some p)"
proof (cases "initializeSessionPool key cfg (newPool out) (poolRegistry st)")
  case (Inl e)
  then show ?thesis by (simp add: statefulInitialize_def)
next
  case (Inr reg1)
  from initializeSessionPool_global [OF this, of p]
  have log: "poolCloses ''global'' reg1 = poolCloses ''global'' (poolRegistry st)"
    and keep: "map_of (sessionPools (poolRegistry st)) ''global'' = Some p \<longrightarrow>
      map_of (sessionPools reg1) ''global'' = Some p"
    by (simp_all add: poolCloses_def)
  let ?st1 = "st\<lparr>poolRegistry := reg1\<rparr>"
  note cl = initializeCleanup_global [of _ key ?st1]
  show ?thesis
    using Inr log keep cl
    by (auto simp: statefulInitialize_def createMcpServer_def createSession_mcp_def Let_def
        split: option.splits)
qed


lemma tokenCleanupCallback_global:
  "length randomBytes = 32 \<Longrightarrow>
   poolCloses ''global'' (tokenCleanupCallback (generateTokenString randomBytes) reg)
     = poolCloses ''global'' reg \<and>
   map_of (sessionPools (tokenCleanupCallback (generateTokenString randomBytes) reg)) ''global''
     = map_of (sessionPools reg) ''global''"
  unfolding tokenCleanupCallback_def
  by (rule closeSessionPool_other) (rule generateTokenString_not_global)

subsection \<open>Interleaved executions of the pool registry\<close>

lemma closeSessionPool_pieces:
  "closeSessionPool k reg =
     (case closeSessionPool_enter k reg of
        (None, reg') \<Rightarrow> reg'
      | (Some p, reg') \<Rightarrow> closeSessionPool_settle k reg')"
  by (simp add: closeSessionPool_def closeSessionPool_enter_def closeSessionPool_settle_def
      split: option.splits)

lemma callClosePool_pools [simp]:
  "sessionPools (registry (callClosePool k st)) = sessionPools (registry st)"
  by (simp add: callClosePool_def closeSessionPool_enter_def split: option.splits)

lemma callClosePool_closes:
  "poolCloses g (registry (callClosePool k st))
     = poolCloses g (registry st)
       + (if k = g \<and> map_of (sessionPools (registry st)) g \<noteq> None then 1 else 0)"
  by (auto simp: callClosePool_def closeSessionPool_enter_def poolCloses_def
      split: option.splits)

lemma callClosePool_closing:
  "set (closing (callClosePool k st))
     = set (closing st) \<union> (if map_of (sessionPools (registry st)) k \<noteq> None then {k} else {})"
  by (auto simp: callClosePool_def closeSessionPool_enter_def split: option.splits)

lemma fold_callClosePool_pools [simp]:
  "sessionPools (registry (fold callClosePool ks st)) = sessionPools (registry st)"
  by (induction ks arbitrary: st) simp_all

lemma fold_callClosePool_closes:
  "poolCloses g (registry (fold callClosePool ks st))
     = poolCloses g (registry st)
       + (if map_of (sessionPools (registry st)) g \<noteq> None then count_list ks g else 0)"
  by (induction ks arbitrary: st) (simp_all add: callClosePool_closes)

lemma fold_callClosePool_closing_mono:
  "set (closing st) \<subseteq> set (closing (fold callClosePool ks st))"
proof (induction ks arbitrary: st)
  case Nil
  show ?case by simp
next
  case (Cons k ks)
  have "set (closing st) \<subseteq> set (closing (callClosePool k st))"
    by (simp add: callClosePool_closing)
  with Cons.IH [of "callClosePool k st"] show ?case by auto
qed

lemma fold_callClosePool_closing:
  "g \<in> set ks \<Longrightarrow> map_of (sessionPools (registry st)) g \<noteq> None \<Longrightarrow>
   g \<in> set (closing (fold callClosePool ks st))"
proof (induction ks arbitrary: st)
  case Nil
  then show ?case by simp
next
  case (Cons k ks)
  show ?case
  proof (cases "k = g")
    case True
    with Cons.prems(2) have "g \<in> set (closing (callClosePool k st))"
      by (simp add: callClosePool_closing)
    with fold_callClosePool_closing_mono [of "callClosePool k st" ks]
    have "g \<in> set (closing (fold callClosePool ks (callClosePool k st)))"
      by (rule subsetD)
    then show ?thesis by simp
  next
    case False
    with Cons.prems(1) have "g \<in> set ks" by simp
    moreover from Cons.prems(2)
    have "map_of (sessionPools (registry (callClosePool k st))) g \<noteq> None" by simp
    ultimately have "g \<in> set (closing (fold callClosePool ks (callClosePool k st)))"
      by (rule Cons.IH)
    then show ?thesis by simp
  qed
qed

lemma count_list_distinct:
  "distinct xs \<Longrightarrow> count_list xs x = (if x \<in> set xs then 1 else 0)"
  by (induction xs) auto

lemma count_list_keys:
  "distinct (map fst al) \<Longrightarrow>
   count_list (map fst al) g = (if map_of al g \<noteq> None then 1 else 0)"
proof -
  assume "distinct (map fst al)"
  then have "count_list (map fst al) g = (if g \<in> set (map fst al) then 1 else 0)"
    by (rule count_list_distinct)
  moreover have "g \<in> set (map fst al) \<longleftrightarrow> map_of al g \<noteq> None"
    by (simp add: map_of_eq_None_iff)
  ultimately show ?thesis by simp
qed

lemma closeAllSessionPools_start_pools [simp]:
  "sessionPools (registry (closeAllSessionPools_start st)) = sessionPools (registry st)"
  by (simp add: closeAllSessionPools_start_def)

lemma closeAllSessionPools_start_closes:
  assumes "distinct (map fst (sessionPools (registry st)))"
  shows "poolCloses g (registry (closeAllSessionPools_start st))
     = poolCloses g (registry st)
       + (if map_of (sessionPools (registry st)) g \<noteq> None then 1 else 0)"
proof (cases "sessionPools (registry st) = []")
  case True
  then show ?thesis by (simp add: closeAllSessionPools_start_def)
next
  case False
  then have "closeAllSessionPools_start st
      = fold callClosePool (map fst (sessionPools (registry st))) st"
    by (simp add: closeAllSessionPools_start_def)
  then show ?thesis
    using count_list_keys [OF assms, of g] by (simp add: fold_callClosePool_closes)
qed

lemma closeAllSessionPools_start_closing:
  assumes "map_of (sessionPools (registry st)) g \<noteq> None"
  shows "g \<in> set (closing (closeAllSessionPools_start st))"
proof -
  from assms have nonempty: "sessionPools (registry st) \<noteq> []" by auto
  from assms have "g \<in> set (map fst (sessionPools (registry st)))"
    by (simp add: map_of_eq_None_iff)
  from fold_callClosePool_closing [OF this assms] nonempty
  show ?thesis by (simp add: closeAllSessionPools_start_def)
qed

lemma pool_apply_distinct:
  "distinct (map fst (sessionPools (registry st))) \<Longrightarrow>
   distinct (map fst (sessionPools (registry (pool_apply a st))))"
  by (cases a)
    (auto simp: initializeSessionPool_def closeSessionPool_settle_def AList.distinct_update
       AList.distinct_delete split: sum.splits)

lemma pool_run_distinct: "distinct (map fst (sessionPools (registry (pool_run acts))))"
proof -
  have "distinct (map fst (sessionPools (registry st))) \<Longrightarrow>
      distinct (map fst (sessionPools (registry (fold pool_apply acts st))))" for st
    by (induction acts arbitrary: st) (simp_all add: pool_apply_distinct)
  then show ?thesis
    by (simp add: pool_run_def pool_sim_init_def emptyRegistry_def)
qed

lemma pool_apply_bound:
  assumes "distinct (map fst (sessionPools (registry st)))"
  shows "poolCloses g (registry (pool_apply a st))
     \<le> poolCloses g (registry st) + (if a = CloseAllStart \<or> a = CallClosePool g then 1 else 0)"
proof (cases a)
  case (Ensure k cfg opened)
  then show ?thesis
    by (auto simp: initializeSessionPool_def poolCloses_def split: sum.splits)
next
  case (CallClosePool k)
  then show ?thesis by (simp add: callClosePool_closes)
next
  case (SettleClosePool k)
  then show ?thesis by (simp add: closeSessionPool_settle_def poolCloses_def)
next
  case CloseAllStart
  then show ?thesis by (simp add: closeAllSessionPools_start_closes [OF assms])
qed

lemma fold_pool_apply_bound:
  "distinct (map fst (sessionPools (registry st))) \<Longrightarrow>
   poolCloses g (registry (fold pool_apply acts st))
     \<le> poolCloses g (registry st) + count_list acts CloseAllStart
         + count_list acts (CallClosePool g)"
proof (induction acts arbitrary: st)
  case Nil
  show ?case by simp
next
  case (Cons a acts)
  from Cons.prems have d: "distinct (map fst (sessionPools (registry (pool_apply a st))))"
    by (rule pool_apply_distinct)
  from Cons.IH [OF d] pool_apply_bound [OF Cons.prems, of g a]
  show ?case by (cases a) auto
qed

lemma pool_run_bound:
  "poolCloses g (registry (pool_run acts))
     \<le> count_list acts CloseAllStart + count_list acts (CallClosePool g)"
proof -
  have "distinct (map fst (sessionPools (registry pool_sim_init)))"
    and "poolCloses g (registry pool_sim_init) = 0"
    by (simp_all add: pool_sim_init_def emptyRegistry_def poolCloses_def)
  with fold_pool_apply_bound [of pool_sim_init g acts] show ?thesis
    by (simp add: pool_run_def)
qed

lemma closeAll_settle_removes:
  assumes "map_of (sessionPools (registry st)) g \<noteq> None"
  shows "map_of (sessionPools (registry
      (pool_apply (SettleClosePool g) (pool_apply CloseAllStart st)))) g = None"
  using closeAllSessionPools_start_closing [OF assms]
  by (simp add: closeSessionPool_settle_def AList.delete_conv')


text \<open>
  The statement that the pool stored under \<open>global\<close> is closed only once at shutdown fails
  when two shutdowns overlap.  The pool is opened; a first shutdown reaches
  \<open>closeAllSessionPools()\<close>, which calls \<open>close()\<close> on the pool and waits; a second
  signal starts a second shutdown, whose \<open>closeAllSessionPools()\<close> still finds the entry
  and calls \<open>close()\<close> on the same pool again.  No per-request or per-session path is
  involved: the execution holds no other call of \<open>closeSessionPool\<close>.
\<close>

theorem shutdown_closes_global_counterexample:
  "poolCloses ''global'' (registry (pool_run overlappingShutdowns)) = 2 \<and>
   poolLog (registry (pool_run overlappingShutdowns))
     = [PoolClosed ''global'', PoolClosed ''global''] \<and>
   count_list overlappingShutdowns CloseAllStart = 2 \<and>
   count_list overlappingShutdowns (CallClosePool ''global'') = 0"
  by (simp add: pool_run_def overlappingShutdowns_def pool_sim_init_def emptyRegistry_def
      initializeSessionPool_def closeAllSessionPools_start_def callClosePool_def
      closeSessionPool_enter_def closeSessionPool_settle_def poolCloses_def examplePool_def
      AList.delete_eq)

text \<open>
  C3, as amended.  On the initialize path, once the pool is ensured: when server
  construction fails, or when it succeeds and session creation fails, the error is
  rethrown after the cleanup block has run with the server if one was created.  The
  cleanup block closes that server, and closes the pool of the session key exactly when
  the key is not \<open>global\<close>.  Consequently, whatever the key and the outcome, the
  initialize path never calls \<open>close()\<close> on the pool stored under \<open>global\<close> and leaves
  that pool registered.  The same holds for the other callers of \<open>closeSessionPool\<close>
  outside shutdown: the credential probe of \<open>/auth\<close>, whose key starts with
  \<open>auth-test-\<close>, and the token cleanup callback, whose key is a token string (43
  characters, from 32 random bytes).  So \<open>close()\<close> is called on the pool stored under
  \<open>global\<close> only by the \<open>closeAllSessionPools()\<close> of a shutdown: in every interleaved
  execution of the registry, the number of these calls is at most the number of
  \<open>closeAllSessionPools()\<close> calls plus the number of \<open>closeSessionPool('global')\<close>
  calls, and no path outside shutdown makes one of the latter.  Each
  \<open>closeAllSessionPools()\<close> that finds the pool registered calls \<open>close()\<close> on it
  exactly once, and the entry is gone when that call settles.
\<close>

theorem initialize_failure_keeps_global:
  "(\<forall>reg1 e. initializeSessionPool key cfg (newPool out) (poolRegistry st) = Inr reg1 \<and>
        (createError out = Some e \<or> createError out = None \<and> connectError out = Some e) \<longrightarrow>
      statefulInitialize mode key cfg out now st =
        (Inl e,
         initializeCleanup
           (if createError out = None then Some \<lparr>serverConfig = cfg, serverSessionKey = key\<rparr>
            else None)
           key (st\<lparr>poolRegistry := reg1\<rparr>))) \<and>
   closedServers (initializeCleanup srv key st)
     = closedServers st @ (case srv of Some s \<Rightarrow> [s] | None \<Rightarrow> []) \<and>
   poolRegistry (initializeCleanup srv key st)
     = (if key \<noteq> ''global'' then closeSessionPool key (poolRegistry st) else poolRegistry st) \<and>
   poolCloses ''global'' (poolRegistry (snd (statefulInitialize mode key cfg out now st)))
     = poolCloses ''global'' (poolRegistry st) \<and>
   (\<forall>p. map_of (sessionPools (poolRegistry st)) ''global'' = Some p \<longrightarrow>
      map_of (sessionPools (poolRegistry (snd (statefulInitialize mode key cfg out now st))))
        ''global'' = Some p) \<and>
   poolCloses ''global'' (snd (authProbe rnd cfg np reg)) = poolCloses ''global'' reg \<and>
   map_of (sessionPools (snd (authProbe rnd cfg np reg))) ''global''
     = map_of (sessionPools reg) ''global'' \<and>
   (length randomBytes = 32 \<longrightarrow>
      poolCloses ''global'' (tokenCleanupCallback (generateTokenString randomBytes) reg)
        = poolCloses ''global'' reg \<and>
      map_of (sessionPools (tokenCleanupCallback (generateTokenString randomBytes) reg)) ''global''
        = map_of (sessionPools reg) ''global'') \<and>
   poolCloses ''global'' (registry (pool_run acts))
     \<le> count_list acts CloseAllStart + count_list acts (CallClosePool ''global'') \<and>
   (\<forall>p. map_of (sessionPools (registry (pool_run acts))) ''global'' = Some p \<longrightarrow>
      poolCloses ''global'' (registry (pool_apply CloseAllStart (pool_run acts)))
        = poolCloses ''global'' (registry (pool_run acts)) + 1 \<and>
      map_of (sessionPools (registry
        (pool_apply (SettleClosePool ''global'') (pool_apply CloseAllStart (pool_run acts)))))
        ''global'' = None)"
proof (intro conjI allI impI)
  fix reg1 e
  assume "initializeSessionPool key cfg (newPool out) (poolRegistry st) = Inr reg1 \<and>
        (createError out = Some e \<or> createError out = None \<and> connectError out = Some e)"
  then show "statefulInitialize mode key cfg out now st =
        (Inl e,
         initializeCleanup
           (if createError out = None then Some \<lparr>serverConfig = cfg, serverSessionKey = key\<rparr>
            else None)
           key (st\<lparr>poolRegistry := reg1\<rparr>))"
    by (auto simp: statefulInitialize_def createMcpServer_def createSession_mcp_def Let_def)
next
  show "closedServers (initializeCleanup srv key st)
     = closedServers st @ (case srv of Some s \<Rightarrow> [s] | None \<Rightarrow> [])"
    by (cases srv) (simp_all add: initializeCleanup_def Let_def)
  show "poolRegistry (initializeCleanup srv key st)
     = (if key \<noteq> ''global'' then closeSessionPool key (poolRegistry st) else poolRegistry st)"
    by (cases srv) (simp_all add: initializeCleanup_def Let_def)
  show "poolCloses ''global'' (poolRegistry (snd (statefulInitialize mode key cfg out now st)))
     = poolCloses ''global'' (poolRegistry st)"
    using statefulInitialize_global [of mode key cfg out now st] by simp
next
  fix p assume "map_of (sessionPools (poolRegistry st)) ''global'' = Some p"
  then show "map_of (sessionPools (poolRegistry (snd (statefulInitialize mode key cfg out now st))))
        ''global'' = Some p"
    using statefulInitialize_global [of mode key cfg out now st p] by simp
next
  have ne: "''auth-test-'' @ rnd \<noteq> ''global''" by simp
  have probe: "snd (authProbe rnd cfg np reg)
      = closeSessionPool (''auth-test-'' @ rnd)
          (case initializeSessionPool (''auth-test-'' @ rnd) cfg np reg of
             Inl e \<Rightarrow> reg | Inr reg1 \<Rightarrow> reg1)"
    by (auto simp: authProbe_def Let_def split: sum.splits error.splits)
  have init: "poolCloses ''global''
        (case initializeSessionPool (''auth-test-'' @ rnd) cfg np reg of
           Inl e \<Rightarrow> reg | Inr reg1 \<Rightarrow> reg1) = poolCloses ''global'' reg \<and>
      map_of (sessionPools
        (case initializeSessionPool (''auth-test-'' @ rnd) cfg np reg of
           Inl e \<Rightarrow> reg | Inr reg1 \<Rightarrow> reg1)) ''global'' = map_of (sessionPools reg) ''global''"
    by (auto simp: initializeSessionPool_def poolCloses_def AList.update_conv'
        split: sum.splits)
  from closeSessionPool_other [OF ne] probe init
  show "poolCloses ''global'' (snd (authProbe rnd cfg np reg)) = poolCloses ''global'' reg"
    and "map_of (sessionPools (snd (authProbe rnd cfg np reg))) ''global''
     = map_of (sessionPools reg) ''global''"
    by simp_all
next
  assume "length randomBytes = 32"
  then have both: "poolCloses ''global'' (tokenCleanupCallback (generateTokenString randomBytes) reg)
        = poolCloses ''global'' reg \<and>
      map_of (sessionPools (tokenCleanupCallback (generateTokenString randomBytes) reg)) ''global''
        = map_of (sessionPools reg) ''global''"
    by (rule tokenCleanupCallback_global)
  from both show "poolCloses ''global'' (tokenCleanupCallback (generateTokenString randomBytes) reg)
        = poolCloses ''global'' reg"
    by (rule conjunct1)
  from both show "map_of (sessionPools (tokenCleanupCallback (generateTokenString randomBytes) reg))
        ''global'' = map_of (sessionPools reg) ''global''"
    by (rule conjunct2)
next
  show "poolCloses ''global'' (registry (pool_run acts))
     \<le> count_list acts CloseAllStart + count_list acts (CallClosePool ''global'')"
    by (rule pool_run_bound)
next
  fix p
  assume g: "map_of (sessionPools (registry (pool_run acts))) ''global'' = Some p"
  then have present: "map_of (sessionPools (registry (pool_run acts))) ''global'' \<noteq> None"
    by simp
  have "poolCloses ''global'' (registry (closeAllSessionPools_start (pool_run acts)))
      = poolCloses ''global'' (registry (pool_run acts))
        + (if map_of (sessionPools (registry (pool_run acts))) ''global'' \<noteq> None then 1 else 0)"
    by (rule closeAllSessionPools_start_closes) (rule pool_run_distinct)
  with present
  show "poolCloses ''global'' (registry (pool_apply CloseAllStart (pool_run acts)))
        = poolCloses ''global'' (registry (pool_run acts)) + 1"
    by simp
  from present
  show "map_of (sessionPools (registry
        (pool_apply (SettleClosePool ''global'') (pool_apply CloseAllStart (pool_run acts)))))
        ''global'' = None"
    by (rule closeAll_settle_removes)
qed

theorem initialize_failure_keeps_global_witness:
  "initializeSessionPool ''tok1'' exampleConfig (newPool failingConnect)
     (poolRegistry exampleHttpState) = Inr exampleRegistry \<and>
   createError failingConnect = None \<and>
   connectError failingConnect = Some (Error ''connect failed'') \<and>
   statefulInitialize AuthRequired ''tok1'' exampleConfig failingConnect 0 exampleHttpState =
     (Inl (Error ''connect failed''),
      exampleHttpState
        \<lparr>poolRegistry := exampleRegistry
           \<lparr>sessionPools := [(''global'', examplePool False False)],
            poolLog := [PoolCloseError ''tok1'']\<rparr>,
         closedServers := [\<lparr>serverConfig = exampleConfig, serverSessionKey = ''tok1''\<rparr>]\<rparr>) \<and>
   statefulInitialize AuthNone ''global'' exampleConfig failingConnect 0 exampleHttpState =
     (Inl (Error ''connect failed''),
      exampleHttpState
        \<lparr>closedServers := closedServers exampleHttpState
           @ [\<lparr>serverConfig = exampleConfig, serverSessionKey = ''global''\<rparr>]\<rparr>) \<and>
   map_of (sessionPools (poolRegistry exampleHttpState)) ''global''
     = Some (examplePool False False) \<and>
   length (replicate 32 (0::nat)) = 32 \<and>
   poolCloses ''global''
     (tokenCleanupCallback (generateTokenString (replicate 32 0)) exampleRegistry)
     = poolCloses ''global'' exampleRegistry \<and>
   registry (pool_run beforeShutdown)
     = \<lparr>globalPool = None, sessionPools = [(''global'', examplePool False False)],
        poolLog = [PoolClosed ''tok1'']\<rparr> \<and>
   poolCloses ''global'' (registry (pool_run beforeShutdown)) = 0 \<and>
   poolCloses ''global'' (registry (pool_apply CloseAllStart (pool_run beforeShutdown))) = 1 \<and>
   map_of (sessionPools (registry
     (pool_apply (SettleClosePool ''global'') (pool_apply CloseAllStart (pool_run beforeShutdown)))))
     ''global'' = None"
proof -
  note tok = initialize_failure_keeps_global [where key = "''tok1''" and cfg = exampleConfig
      and out = failingConnect and st = exampleHttpState and mode = AuthRequired and now = 0
      and reg = exampleRegistry and randomBytes = "replicate 32 0" and srv = None
      and rnd = "[]" and np = "Inl (Error [])" and acts = beforeShutdown]
  have init: "initializeSessionPool ''tok1'' exampleConfig (newPool failingConnect)
     (poolRegistry exampleHttpState) = Inr exampleRegistry"
    by (simp add: initializeSessionPool_def exampleHttpState_def exampleRegistry_def)
  have errs: "createError failingConnect = None \<and>
      connectError failingConnect = Some (Error ''connect failed'')"
    by (simp add: failingConnect_def)
  have r1: "statefulInitialize AuthRequired ''tok1'' exampleConfig failingConnect 0 exampleHttpState =
     (Inl (Error ''connect failed''),
      exampleHttpState
        \<lparr>poolRegistry := exampleRegistry
           \<lparr>sessionPools := [(''global'', examplePool False False)],
            poolLog := [PoolCloseError ''tok1'']\<rparr>,
         closedServers := [\<lparr>serverConfig = exampleConfig, serverSessionKey = ''tok1''\<rparr>]\<rparr>)"
    by (simp add: statefulInitialize_def initializeSessionPool_def createMcpServer_def
        createSession_mcp_def initializeCleanup_def closeSessionPool_def failingConnect_def
        exampleHttpState_def exampleRegistry_def examplePool_def Let_def AList.delete_eq)
  have gi: "initializeSessionPool ''global'' exampleConfig (newPool failingConnect)
     (poolRegistry exampleHttpState) = Inr (poolRegistry exampleHttpState)"
    by (simp add: initializeSessionPool_def exampleHttpState_def exampleRegistry_def)
  have r2: "statefulInitialize AuthNone ''global'' exampleConfig failingConnect 0 exampleHttpState =
     (Inl (Error ''connect failed''),
      exampleHttpState
        \<lparr>closedServers := closedServers exampleHttpState
           @ [\<lparr>serverConfig = exampleConfig, serverSessionKey = ''global''\<rparr>]\<rparr>)"
    unfolding statefulInitialize_def gi
    by (simp add: createMcpServer_def createSession_mcp_def initializeCleanup_def errs)
  have g: "map_of (sessionPools (poolRegistry exampleHttpState)) ''global''
     = Some (examplePool False False)"
    by (simp add: exampleHttpState_def exampleRegistry_def)
  have len: "length (replicate 32 (0::nat)) = 32" by simp
  from tok have "length (replicate 32 (0::nat)) = 32 \<longrightarrow>
      poolCloses ''global''
        (tokenCleanupCallback (generateTokenString (replicate 32 0)) exampleRegistry)
        = poolCloses ''global'' exampleRegistry \<and>
      map_of (sessionPools (tokenCleanupCallback (generateTokenString (replicate 32 0))
        exampleRegistry)) ''global'' = map_of (sessionPools exampleRegistry) ''global''"
    by (elim conjE)
  from this len have "poolCloses ''global''
        (tokenCleanupCallback (generateTokenString (replicate 32 0)) exampleRegistry)
        = poolCloses ''global'' exampleRegistry \<and>
      map_of (sessionPools (tokenCleanupCallback (generateTokenString (replicate 32 0))
        exampleRegistry)) ''global'' = map_of (sessionPools exampleRegistry) ''global''"
    by (rule mp)
  then have cb: "poolCloses ''global''
     (tokenCleanupCallback (generateTokenString (replicate 32 0)) exampleRegistry)
     = poolCloses ''global'' exampleRegistry"
    by (rule conjunct1)
  have run: "registry (pool_run beforeShutdown)
     = \<lparr>globalPool = None, sessionPools = [(''global'', examplePool False False)],
        poolLog = [PoolClosed ''tok1'']\<rparr>"
    by (simp add: pool_run_def beforeShutdown_def pool_sim_init_def emptyRegistry_def
        initializeSessionPool_def callClosePool_def closeSessionPool_enter_def
        closeSessionPool_settle_def examplePool_def AList.delete_eq)
  have zero: "poolCloses ''global'' (registry (pool_run beforeShutdown)) = 0"
    unfolding run by (simp add: poolCloses_def)
  have gp: "map_of (sessionPools (registry (pool_run beforeShutdown))) ''global''
      = Some (examplePool False False)"
    unfolding run by simp
  from tok have "\<forall>p. map_of (sessionPools (registry (pool_run beforeShutdown))) ''global'' = Some p
      \<longrightarrow>
      poolCloses ''global'' (registry (pool_apply CloseAllStart (pool_run beforeShutdown)))
        = poolCloses ''global'' (registry (pool_run beforeShutdown)) + 1 \<and>
      map_of (sessionPools (registry
        (pool_apply (SettleClosePool ''global'')
          (pool_apply CloseAllStart (pool_run beforeShutdown)))))
        ''global'' = None"
    by (elim conjE)
  then have "map_of (sessionPools (registry (pool_run beforeShutdown))) ''global''
        = Some (examplePool False False) \<longrightarrow>
      poolCloses ''global'' (registry (pool_apply CloseAllStart (pool_run beforeShutdown)))
        = poolCloses ''global'' (registry (pool_run beforeShutdown)) + 1 \<and>
      map_of (sessionPools (registry
        (pool_apply (SettleClosePool ''global'')
          (pool_apply CloseAllStart (pool_run beforeShutdown)))))
        ''global'' = None"
    by (rule spec)
  from this gp have both: "poolCloses ''global''
        (registry (pool_apply CloseAllStart (pool_run beforeShutdown)))
        = poolCloses ''global'' (registry (pool_run beforeShutdown)) + 1 \<and>
      map_of (sessionPools (registry
        (pool_apply (SettleClosePool ''global'')
          (pool_apply CloseAllStart (pool_run beforeShutdown)))))
        ''global'' = None"
    by (rule mp)
  from both zero
  have once: "poolCloses ''global'' (registry (pool_apply CloseAllStart (pool_run beforeShutdown))) = 1"
    by simp
  from both have gone: "map_of (sessionPools (registry
     (pool_apply (SettleClosePool ''global'') (pool_apply CloseAllStart (pool_run beforeShutdown)))))
     ''global'' = None"
    by (rule conjunct2)
  from init errs r1 r2 g len cb run zero once gone show ?thesis
    by (intro conjI) (elim conjE, assumption)+
qed

end
